theory Spec2Isabelle
  imports Main "HOL-Library.Word" "HOL-Library.Char_ord" "HOL-Library.List_Lexorder"
begin

section \<open>Whole-genome ranking databases (pyscenic/rnkdb.py)\<close>

text \<open>
  A shallow embedding of the class \<open>RankingDatabase\<close>. Python exceptions are values
  of the type \<open>error\<close>, and a method returns its outcome together with the state of
  the object after the call, whose only mutable part is the cache of the memoised
  property \<open>genes\<close>. The operating system and SQLite are an argument of every method:
  the class opens its URI anew, read-only, at each call. Gene and feature identifiers
  are \<open>string\<close>s, ordered lexicographically by character code, which is the order of
  SQLite's default collation on text; \<open>ORDER BY\<close> is a stable sort on the rows in
  their internal order.
\<close>

subsection \<open>Exceptions\<close>

datatype error =
    AssertionError string  \<comment> \<open>a failed \<open>assert\<close>, with its message\<close>
  | SqliteError            \<comment> \<open>\<open>sqlite3.Error\<close>: the database cannot be opened or queried\<close>
  | QueryRefused           \<comment> \<open>\<open>sqlite3\<close>: "the query contains a null character"\<close>
  | ValueError             \<comment> \<open>numpy: buffer size or broadcast mismatch\<close>
  | IndexError             \<comment> \<open>numpy: column index out of bounds\<close>

subsection \<open>The SQLite file\<close>

type_synonym byte = "8 word"
type_synonym blob = "byte list"

text \<open>
  The two tables read by the queries: \<open>motifs(motifName, idx)\<close> and
  \<open>rankings(geneID, ranking)\<close>. The rows of a table are listed in the order of
  their internal row index.
\<close>

record store =
  motifs :: "(string \<times> int) list"
  rankings :: "(string \<times> blob) list"

text \<open>
  What the class asks of the operating system and of SQLite: \<open>os.path.exists\<close> and
  \<open>os.path.abspath\<close> on a path, and for a URI the ranking database that SQLite reads
  through it, or \<open>None\<close> when the connection or a query on it raises an \<open>sqlite3\<close>
  error. Nothing ties the three together: the class pastes the absolute path into the
  URI as it is, so that a path with \<open>?\<close>, \<open>#\<close> or \<open>%\<close> in it can name one file to
  \<open>os.path.exists\<close> and another one to SQLite.
\<close>

record environment =
  os_path_exists :: "string \<Rightarrow> bool"
  os_path_abspath :: "string \<Rightarrow> string"
  sqlite3_open :: "string \<Rightarrow> store option"

text \<open>\<open>sqlite3.connect(self._uri, uri=True)\<close>, followed by a query on the cursor.\<close>

definition sqlite3_connect :: "environment \<Rightarrow> string \<Rightarrow> error + store" where
  "sqlite3_connect env uri' =
     (case sqlite3_open env uri' of Some s \<Rightarrow> Inr s | None \<Rightarrow> Inl SqliteError)"

subsection \<open>The queries\<close>

text \<open>\<open>SELECT COUNT(*) FROM rankings;\<close>\<close>

definition GENE_ID_COUNT_QUERY :: "store \<Rightarrow> int" where
  "GENE_ID_COUNT_QUERY s = int (length (rankings s))"

text \<open>\<open>SELECT motifName FROM motifs ORDER BY idx;\<close>\<close>

definition FEATURE_IDS_QUERY :: "store \<Rightarrow> string list" where
  "FEATURE_IDS_QUERY s = map fst (sort_key snd (motifs s))"

text \<open>\<open>SELECT geneID FROM rankings ORDER BY geneID;\<close>\<close>

definition ALL_GENE_IDS_QUERY :: "store \<Rightarrow> string list" where
  "ALL_GENE_IDS_QUERY s = map fst (sort_key fst (rankings s))"

text \<open>\<open>SELECT geneID, ranking FROM rankings ORDER BY geneID;\<close>\<close>

definition ALL_RANKINGS_QUERY :: "store \<Rightarrow> (string \<times> blob) list" where
  "ALL_RANKINGS_QUERY s = sort_key fst (rankings s)"

text \<open>
  The text substituted into \<open>geneID IN ({0:s})\<close> is read by the SQL engine as a
  comma-separated list of string literals. A literal starts and ends with a single
  quote; two single quotes in a row inside it stand for one.
\<close>

definition sq :: char where
  "sq = CHR 0x27"

fun sql_literal :: "string \<Rightarrow> (string \<times> string) option" where
  "sql_literal [] = None"
| "sql_literal (c # cs) =
     (if c \<noteq> sq then map_option (apfst ((#) c)) (sql_literal cs)
      else (case cs of
              [] \<Rightarrow> Some ([], [])
            | d # ds \<Rightarrow>
                if d = sq then map_option (apfst ((#) sq)) (sql_literal ds)
                else Some ([], cs)))"

function sql_literals :: "string \<Rightarrow> string list option" where
  "sql_literals cs =
     (case cs of
        [] \<Rightarrow> None
      | c # cs' \<Rightarrow>
          if c \<noteq> sq then None
          else (case sql_literal cs' of
                  None \<Rightarrow> None
                | Some (v, rest) \<Rightarrow>
                    (case rest of
                       [] \<Rightarrow> Some [v]
                     | d # rest' \<Rightarrow>
                         if d = CHR '','' then map_option ((#) v) (sql_literals rest')
                         else None)))"
  by pat_completeness auto
termination
proof (relation "measure length")
  show "wf (measure length)" by simp
next
  have shorter: "length rest \<le> length cs" if "sql_literal cs = Some (v, rest)" for cs v rest
    using that
  proof (induction cs arbitrary: v rest rule: sql_literal.induct)
    case 1
    then show ?case by simp
  next
    case (2 c cs)
    then show ?case
      by (fastforce split: if_splits list.splits)
  qed
  fix cs :: string and c cs' x v rest d rest'
  assume "cs = c # cs'" and "sql_literal cs' = Some x" and "(v, rest) = x"
    and "rest = d # rest'"
  then have "length (d # rest') \<le> length cs'"
    using shorter [of cs' v rest] by simp
  with \<open>cs = c # cs'\<close> show "(rest', cs) \<in> measure length" by simp
qed

declare sql_literals.simps [simp del]

definition sql_in_list :: "string \<Rightarrow> string list option" where
  "sql_in_list txt = (if txt = [] then Some [] else sql_literals txt)"

text \<open>
  \<open>SELECT geneID, ranking FROM rankings WHERE geneID IN ({0:s}) ORDER BY geneID;\<close>
  with the given text in place of \<open>{0:s}\<close>. The \<open>sqlite3\<close> module refuses a statement
  that contains a NUL character (the fixed part of the statement has none); text that
  is no list of literals is a syntax error.
\<close>

definition RANKINGS_QUERY :: "store \<Rightarrow> string \<Rightarrow> error + (string \<times> blob) list" where
  "RANKINGS_QUERY s txt =
     (if CHR 0x00 \<in> set txt then Inl QueryRefused
      else (case sql_in_list txt of
              None \<Rightarrow> Inl SqliteError
            | Some ids \<Rightarrow>
                Inr (sort_key fst (filter (\<lambda>row. fst row \<in> set ids) (rankings s)))))"

subsection \<open>numpy arrays\<close>

datatype dtype = Int16 | Int32

definition itemsize :: "dtype \<Rightarrow> nat" where
  "itemsize dt = (case dt of Int16 \<Rightarrow> 2 | Int32 \<Rightarrow> 4)"

text \<open>
  A two-dimensional array, stored row by row. \<open>np.empty\<close> does not initialise
  its cells: a cell that was never written is \<open>None\<close>.
\<close>

record ndarray =
  shape :: "nat \<times> nat"
  adtype :: dtype
  cells :: "int option list list"

definition np_empty :: "nat \<times> nat \<Rightarrow> dtype \<Rightarrow> ndarray" where
  "np_empty shp dt =
     \<lparr>shape = shp, adtype = dt, cells = replicate (fst shp) (replicate (snd shp) None)\<rparr>"

definition column :: "ndarray \<Rightarrow> nat \<Rightarrow> int option list" where
  "column a g = map (\<lambda>row. row ! g) (cells a)"

text \<open>The cells agree with the shape: as many rows, and in each row as many cells.\<close>

definition wf_array :: "ndarray \<Rightarrow> bool" where
  "wf_array a =
     (length (cells a) = fst (shape a) \<and>
      list_all (\<lambda>row. length row = snd (shape a)) (cells a))"

text \<open>
  The bytes of one item read as a signed integer, least significant byte first (the
  native byte order of the \<open>int16\<close> and \<open>int32\<close> of a little-endian machine).
\<close>

definition le_uint :: "byte list \<Rightarrow> int" where
  "le_uint bs = foldr (\<lambda>b acc. uint b + 256 * acc) bs 0"

definition decode_item :: "dtype \<Rightarrow> byte list \<Rightarrow> int" where
  "decode_item dt bs =
     (case dt of
        Int16 \<Rightarrow> sint (word_of_int (le_uint bs) :: 16 word)
      | Int32 \<Rightarrow> sint (word_of_int (le_uint bs) :: 32 word))"

text \<open>
  \<open>np.frombuffer(ranking, dtype=self._dtype)\<close>: a buffer whose size is not a
  multiple of the item size raises ValueError.
\<close>

definition frombuffer :: "dtype \<Rightarrow> blob \<Rightarrow> error + int list" where
  "frombuffer dt buf =
     (if length buf mod itemsize dt \<noteq> 0 then Inl ValueError
      else Inr (map (\<lambda>i. decode_item dt (take (itemsize dt) (drop (i * itemsize dt) buf)))
                  [0 ..< length buf div itemsize dt]))"

text \<open>
  Assigning a vector to a slice of \<open>n\<close> cells follows numpy's broadcasting: a
  vector of \<open>n\<close> items is taken as it is, a vector of one item is repeated, and any
  other length is refused.
\<close>

definition np_broadcast :: "nat \<Rightarrow> int list \<Rightarrow> int list option" where
  "np_broadcast n v =
     (if length v = n then Some v
      else (case v of [x] \<Rightarrow> Some (replicate n x) | _ \<Rightarrow> None))"

text \<open>\<open>rankings[:, idx] = v\<close>\<close>

definition setitem_column :: "ndarray \<Rightarrow> nat \<Rightarrow> int list \<Rightarrow> error + ndarray" where
  "setitem_column a idx v =
     (if snd (shape a) \<le> idx then Inl IndexError
      else (case np_broadcast (fst (shape a)) v of
              None \<Rightarrow> Inl ValueError
            | Some w \<Rightarrow>
                Inr (a\<lparr>cells := map (\<lambda>(row, x). row[idx := Some x]) (zip (cells a) w)\<rparr>)))"

subsection \<open>The class\<close>

record RankingDatabase =
  fname :: string
  name :: string
  nomenclature :: string
  uri :: string
  features :: "string list"
  gene_count :: int
  dtype :: dtype
  genes_memo :: "string list option"  \<comment> \<open>the cache of the memoised property \<open>genes\<close>\<close>

definition derive_dtype :: "int \<Rightarrow> dtype" where
  "derive_dtype n = (if n \<le> 2 ^ 15 then Int16 else Int32)"

definition init :: "environment \<Rightarrow> string \<Rightarrow> string \<Rightarrow> string \<Rightarrow> error + RankingDatabase" where
  "init env fname' name' nomenclature' =
     (if \<not> os_path_exists env fname' then
        Inl (AssertionError (''Database '' @ fname' @ '' doesn't exist.''))
      else if name' = [] then Inl (AssertionError ''Name must be specified.'')
      else if nomenclature' = [] then Inl (AssertionError ''Nomenclature must be specified.'')
      else
        let uri' = ''file:'' @ os_path_abspath env fname' @ ''?mode=ro'' in
        (case sqlite3_connect env uri' of
           Inl e \<Rightarrow> Inl e
         | Inr db \<Rightarrow>
             let features' = FEATURE_IDS_QUERY db in
             (case sqlite3_connect env uri' of
                Inl e \<Rightarrow> Inl e
              | Inr db' \<Rightarrow>
                  let gene_count' = GENE_ID_COUNT_QUERY db' in
                  Inr \<lparr>fname = fname', name = name', nomenclature = nomenclature',
                       uri = uri', features = features', gene_count = gene_count',
                       dtype = derive_dtype gene_count', genes_memo = None\<rparr>)))"

text \<open>
  The memoised property \<open>genes\<close>: the query runs on the first access and its
  result is kept; a failed query leaves the cache empty.
\<close>

definition genes :: "environment \<Rightarrow> RankingDatabase \<Rightarrow> (error + string list) \<times> RankingDatabase" where
  "genes env self =
     (case genes_memo self of
        Some gv \<Rightarrow> (Inr gv, self)
      | None \<Rightarrow>
          (case sqlite3_connect env (uri self) of
             Inl e \<Rightarrow> (Inl e, self)
           | Inr db \<Rightarrow>
               let gv = ALL_GENE_IDS_QUERY db in (Inr gv, self\<lparr>genes_memo := Some gv\<rparr>)))"

text \<open>
  The loop of \<open>load_full\<close>:
  \<^verbatim>\<open>for idx, (_, ranking) in enumerate(cursor.execute(ALL_RANKINGS_QUERY)):
    rankings[:, idx] = np.frombuffer(ranking, dtype=self._dtype)\<close>
\<close>

fun load_full_loop :: "dtype \<Rightarrow> ndarray \<Rightarrow> nat \<Rightarrow> (string \<times> blob) list \<Rightarrow> error + ndarray" where
  "load_full_loop dt a idx [] = Inr a"
| "load_full_loop dt a idx ((_, ranking) # rows) =
     (case frombuffer dt ranking of
        Inl e \<Rightarrow> Inl e
      | Inr v \<Rightarrow>
          (case setitem_column a idx v of
             Inl e \<Rightarrow> Inl e
           | Inr a' \<Rightarrow> load_full_loop dt a' (Suc idx) rows))"

definition load_full ::
  "environment \<Rightarrow> RankingDatabase \<Rightarrow>
   (error + string list \<times> string list \<times> ndarray) \<times> RankingDatabase" where
  "load_full env self =
     (case genes env self of
        (Inl e, self1) \<Rightarrow> (Inl e, self1)
      | (Inr gv, self1) \<Rightarrow>
          let rankings0 = np_empty (length (features self1), length gv) (dtype self1) in
          (case sqlite3_connect env (uri self1) of
             Inl e \<Rightarrow> (Inl e, self1)
           | Inr db \<Rightarrow>
               (case load_full_loop (dtype self1) rankings0 0 (ALL_RANKINGS_QUERY db) of
                  Inl e \<Rightarrow> (Inl e, self1)
                | Inr rankings1 \<Rightarrow>
                    (case genes env self1 of
                       (Inl e, self2) \<Rightarrow> (Inl e, self2)
                     | (Inr gv', self2) \<Rightarrow> (Inr (features self2, gv', rankings1), self2)))))"

text \<open>
  Modelled from the spec: the class \<open>GeneSignature\<close> (module \<open>genesig\<close>) is not
  among the sources. The spec's GeneSet is a collection of gene identifiers, and it is
  empty when it has none. \<open>load\<close> uses a signature only through the tuple
  \<open>gs.genes\<close>, its length \<open>len(gs)\<close> and its truth value: a signature is the list of
  its identifiers, \<open>len(gs)\<close> is the length of the list, and \<open>gs\<close> is false when
  the list is empty.
\<close>

type_synonym GeneSignature = "string list"

definition quote :: "string \<Rightarrow> string" where
  "quote v = [sq] @ concat (map (\<lambda>c. if c = sq then [sq, sq] else [c]) v) @ [sq]"

fun join :: "string \<Rightarrow> string list \<Rightarrow> string" where
  "join sep [] = []"
| "join sep [v] = v"
| "join sep (v # vs) = v @ sep @ join sep vs"

definition quoted_csv :: "string list \<Rightarrow> string" where
  "quoted_csv vs = join '','' (map quote vs)"

text \<open>
  The loop of \<open>load\<close>:
  \<^verbatim>\<open>for idx, (gene, ranking) in enumerate(cursor.execute(...)):
    rankings[:, idx] = np.frombuffer(ranking, dtype=self._dtype)
    genes.append(gene)\<close>
\<close>

fun load_loop ::
  "dtype \<Rightarrow> ndarray \<Rightarrow> nat \<Rightarrow> string list \<Rightarrow> (string \<times> blob) list \<Rightarrow>
   error + string list \<times> ndarray" where
  "load_loop dt a idx gv [] = Inr (gv, a)"
| "load_loop dt a idx gv ((gene, ranking) # rows) =
     (case frombuffer dt ranking of
        Inl e \<Rightarrow> Inl e
      | Inr v \<Rightarrow>
          (case setitem_column a idx v of
             Inl e \<Rightarrow> Inl e
           | Inr a' \<Rightarrow> load_loop dt a' (Suc idx) (gv @ [gene]) rows))"

definition load ::
  "environment \<Rightarrow> RankingDatabase \<Rightarrow> GeneSignature \<Rightarrow>
   (error + string list \<times> string list \<times> ndarray) \<times> RankingDatabase" where
  "load env self gs =
     (if gs = [] then (Inl (AssertionError ''A gene signature must be supplied''), self)
      else
        let rankings0 = np_empty (length (features self), length gs) (dtype self) in
        (case sqlite3_connect env (uri self) of
           Inl e \<Rightarrow> (Inl e, self)
         | Inr db \<Rightarrow>
             (case RANKINGS_QUERY db (quoted_csv gs) of
                Inl e \<Rightarrow> (Inl e, self)
              | Inr rows \<Rightarrow>
                  (case load_loop (dtype self) rankings0 0 [] rows of
                     Inl e \<Rightarrow> (Inl e, self)
                   | Inr (gv, rankings1) \<Rightarrow> (Inr (features self, gv, rankings1), self)))))"

subsection \<open>Example databases\<close>

text \<open>
  Every example has the three features f1, f2, f3 (except \<open>quoted_store\<close>) and
  16-bit ranks.
  \<open>example_store\<close>: four genes, whose rows were not inserted in the order of their
  identifiers.
  \<open>signed_store\<close>: one gene with the ranks -2, 4660 and -32768.
  \<open>short_store\<close>: one gene whose blob holds a single rank.
  \<open>torn_store\<close>: a gene whose blob has an odd number of bytes.
  \<open>empty_store\<close>: no gene.
  \<open>twin_store\<close>: two rows with the same gene identifier.
  \<open>nul_store\<close>: a gene identifier with a NUL character in it.
  \<open>quoted_store\<close>: a gene identifier with a single quote in it.
  In \<open>example_env\<close> each store is a file of the directory \<open>/data\<close>, which is the
  working directory; \<open>notes.txt\<close> is a file there that is no SQLite database.
\<close>

definition example_store :: store where
  "example_store =
     \<lparr>motifs = [(''f1'', 0), (''f2'', 1), (''f3'', 2)],
      rankings = [(''g3'', [2, 0, 1, 0, 3, 0]), (''g1'', [0, 0, 3, 0, 1, 0]),
                  (''g4'', [3, 0, 0, 0, 2, 0]), (''g2'', [1, 0, 2, 0, 0, 0])]\<rparr>"

definition signed_store :: store where
  "signed_store =
     \<lparr>motifs = [(''f1'', 0), (''f2'', 1), (''f3'', 2)],
      rankings = [(''g1'', [254, 255, 52, 18, 0, 128])]\<rparr>"

definition short_store :: store where
  "short_store =
     \<lparr>motifs = [(''f1'', 0), (''f2'', 1), (''f3'', 2)],
      rankings = [(''g1'', [5, 0])]\<rparr>"

definition torn_store :: store where
  "torn_store =
     \<lparr>motifs = [(''f1'', 0), (''f2'', 1), (''f3'', 2)],
      rankings = [(''g1'', [0, 0, 1, 0, 1, 0]), (''g2'', [1, 0, 0])]\<rparr>"

definition empty_store :: store where
  "empty_store = \<lparr>motifs = [(''f1'', 0), (''f2'', 1), (''f3'', 2)], rankings = []\<rparr>"

definition twin_store :: store where
  "twin_store =
     \<lparr>motifs = [(''f1'', 0), (''f2'', 1), (''f3'', 2)],
      rankings = [(''g1'', [0, 0, 1, 0, 1, 0]), (''g1'', [1, 0, 0, 0, 0, 0])]\<rparr>"

definition nul_id :: string where
  "nul_id = [CHR ''g'', CHR 0x00, CHR ''1'']"

definition nul_store :: store where
  "nul_store =
     \<lparr>motifs = [(''f1'', 0), (''f2'', 1), (''f3'', 2)],
      rankings = [(nul_id, [0, 0, 0, 0, 0, 0])]\<rparr>"

definition quoted_store :: store where
  "quoted_store =
     \<lparr>motifs = [(''f1'', 0)],
      rankings = [(''g2'', [1, 0]), (''O'Brien1'', [0, 0])]\<rparr>"

definition example_env :: environment where
  "example_env =
     \<lparr>os_path_exists = (\<lambda>path. path \<in> set [''rankings.db'', ''signed.db'', ''short.db'',
        ''torn.db'', ''empty.db'', ''twin.db'', ''nul.db'', ''notes.txt'']),
      os_path_abspath = (\<lambda>path. ''/data/'' @ path),
      sqlite3_open = (\<lambda>uri'.
        if uri' = ''file:/data/rankings.db?mode=ro'' then Some example_store
        else if uri' = ''file:/data/signed.db?mode=ro'' then Some signed_store
        else if uri' = ''file:/data/short.db?mode=ro'' then Some short_store
        else if uri' = ''file:/data/torn.db?mode=ro'' then Some torn_store
        else if uri' = ''file:/data/empty.db?mode=ro'' then Some empty_store
        else if uri' = ''file:/data/twin.db?mode=ro'' then Some twin_store
        else if uri' = ''file:/data/nul.db?mode=ro'' then Some nul_store
        else None)\<rparr>"

text \<open>The object that construction returns for a file of \<open>/data\<close> with \<open>n\<close> genes.\<close>

definition example_object :: "string \<Rightarrow> int \<Rightarrow> RankingDatabase" where
  "example_object file n =
     \<lparr>fname = file, name = ''db'', nomenclature = ''HGNC'',
      uri = ''file:/data/'' @ file @ ''?mode=ro'',
      features = [''f1'', ''f2'', ''f3''], gene_count = n, dtype = Int16,
      genes_memo = None\<rparr>"

definition example_db :: RankingDatabase where
  "example_db = example_object ''rankings.db'' 4"

definition signed_db :: RankingDatabase where
  "signed_db = example_object ''signed.db'' 1"

definition short_db :: RankingDatabase where
  "short_db = example_object ''short.db'' 1"

definition torn_db :: RankingDatabase where
  "torn_db = example_object ''torn.db'' 2"

definition empty_db :: RankingDatabase where
  "empty_db = example_object ''empty.db'' 0"

definition twin_db :: RankingDatabase where
  "twin_db = example_object ''twin.db'' 2"

definition nul_db :: RankingDatabase where
  "nul_db = example_object ''nul.db'' 1"

text \<open>The arrays that the loads of \<open>example_store\<close> return.\<close>

definition example_full :: ndarray where
  "example_full =
     \<lparr>shape = (3, 4), adtype = Int16,
      cells = [[Some 0, Some 1, Some 2, Some 3],
               [Some 3, Some 2, Some 1, Some 0],
               [Some 1, Some 0, Some 3, Some 2]]\<rparr>"

definition example_part :: ndarray where
  "example_part =
     \<lparr>shape = (3, 3), adtype = Int16,
      cells = [[Some 1, Some 3, None],
               [Some 2, Some 0, None],
               [Some 0, Some 2, None]]\<rparr>"

section \<open>Auxiliary facts\<close>

subsection \<open>Arrays\<close>

lemma wf_np_empty: "wf_array (np_empty shp dt)"
  by (simp add: wf_array_def np_empty_def list_all_iff)

lemma shape_np_empty: "shape (np_empty shp dt) = shp"
  by (simp add: np_empty_def)

lemma column_np_empty: "g < c \<Longrightarrow> column (np_empty (r, c) dt) g = replicate r None"
  by (simp add: column_def np_empty_def map_replicate_const)

lemma np_broadcast_length: "np_broadcast n v = Some w \<Longrightarrow> length w = n"
  by (auto simp: np_broadcast_def split: if_splits list.splits)

lemma np_broadcast_exact: "length v = n \<Longrightarrow> np_broadcast n v = Some v"
  by (simp add: np_broadcast_def)

lemma np_broadcast_Some_iff:
  "(\<exists>w. np_broadcast n v = Some w) = (length v = n \<or> length v = 1)"
  by (cases v; cases "tl v") (auto simp: np_broadcast_def)

lemma setitem_column_Inr:
  assumes "setitem_column a idx v = Inr a'"
  shows "idx < snd (shape a) \<and> shape a' = shape a \<and> adtype a' = adtype a \<and>
         (\<exists>w. np_broadcast (fst (shape a)) v = Some w \<and>
              cells a' = map (\<lambda>(row, x). row[idx := Some x]) (zip (cells a) w))"
  using assms by (auto simp: setitem_column_def split: if_splits option.splits)

lemma setitem_column_Inl:
  assumes "setitem_column a idx v = Inl e"
  shows "(snd (shape a) \<le> idx \<and> e = IndexError) \<or>
         (idx < snd (shape a) \<and> np_broadcast (fst (shape a)) v = None \<and> e = ValueError)"
  using assms by (auto simp: setitem_column_def split: if_splits option.splits)

lemma setitem_column_wf:
  assumes "setitem_column a idx v = Inr a'" and "wf_array a"
  shows "wf_array a'"
proof -
  from setitem_column_Inr [OF assms(1)] obtain w where
    sh: "shape a' = shape a" and w: "np_broadcast (fst (shape a)) v = Some w"
    and c: "cells a' = map (\<lambda>(row, x). row[idx := Some x]) (zip (cells a) w)"
    by blast
  have lw: "length w = fst (shape a)" using w by (rule np_broadcast_length)
  from assms(2) have la: "length (cells a) = fst (shape a)"
    and rows: "\<forall>row\<in>set (cells a). length row = snd (shape a)"
    by (simp_all add: wf_array_def list_all_iff)
  have "\<forall>p\<in>set (zip (cells a) w). length (fst p) = snd (shape a)"
    using rows by (auto dest: set_zip_leftD)
  then show ?thesis
    by (auto simp: wf_array_def list_all_iff c sh la lw)
qed

lemma setitem_column_column:
  assumes "setitem_column a idx v = Inr a'" and "wf_array a"
    and "np_broadcast (fst (shape a)) v = Some w"
  shows "column a' j = (if j = idx then map Some w else column a j)"
proof -
  from setitem_column_Inr [OF assms(1)] assms(3) have
    idx: "idx < snd (shape a)"
    and c: "cells a' = map (\<lambda>(row, x). row[idx := Some x]) (zip (cells a) w)"
    by auto
  have lw: "length w = fst (shape a)" using assms(3) by (rule np_broadcast_length)
  from assms(2) have la: "length (cells a) = fst (shape a)"
    and rows: "\<forall>row\<in>set (cells a). length row = snd (shape a)"
    by (simp_all add: wf_array_def list_all_iff)
  show ?thesis
  proof (rule nth_equalityI)
    show "length (column a' j) = length (if j = idx then map Some w else column a j)"
      by (simp add: column_def c la lw)
  next
    fix i assume "i < length (column a' j)"
    then have i: "i < fst (shape a)" by (simp add: column_def c la lw)
    then have "length (cells a ! i) = snd (shape a)" using rows la by simp
    with i idx show "column a' j ! i = (if j = idx then map Some w else column a j) ! i"
      by (simp add: column_def c la lw)
  qed
qed


subsection \<open>The loops\<close>

lemma load_full_loop_Inr:
  assumes "load_full_loop dt a idx rows = Inr a'" and "wf_array a"
  shows "shape a' = shape a \<and> adtype a' = adtype a \<and> wf_array a' \<and>
         (\<forall>i<length rows. idx + i < snd (shape a) \<and>
            (\<exists>v w. frombuffer dt (snd (rows ! i)) = Inr v \<and>
                   np_broadcast (fst (shape a)) v = Some w \<and>
                   column a' (idx + i) = map Some w)) \<and>
         (\<forall>j. j < idx \<or> idx + length rows \<le> j \<longrightarrow> column a' j = column a j)"
  using assms
proof (induction rows arbitrary: a idx)
  case Nil
  then show ?case by simp
next
  case (Cons row rows)
  obtain gene ranking where row: "row = (gene, ranking)" by (cases row)
  from Cons.prems(1) row obtain v a1 where
    v: "frombuffer dt ranking = Inr v" and a1: "setitem_column a idx v = Inr a1"
    and rest: "load_full_loop dt a1 (Suc idx) rows = Inr a'"
    by (auto split: sum.splits)
  from setitem_column_Inr [OF a1] obtain w where
    idx: "idx < snd (shape a)" and sh1: "shape a1 = shape a" and dt1: "adtype a1 = adtype a"
    and w: "np_broadcast (fst (shape a)) v = Some w"
    by blast
  have wf1: "wf_array a1" using a1 Cons.prems(2) by (rule setitem_column_wf)
  have col1: "\<And>j. column a1 j = (if j = idx then map Some w else column a j)"
    using a1 Cons.prems(2) w by (rule setitem_column_column)
  from Cons.IH [OF rest wf1] have
    sh: "shape a' = shape a1" and dt': "adtype a' = adtype a1" and wf': "wf_array a'"
    and cols: "\<And>i. i < length rows \<Longrightarrow> Suc idx + i < snd (shape a1) \<and>
            (\<exists>v w. frombuffer dt (snd (rows ! i)) = Inr v \<and>
                   np_broadcast (fst (shape a1)) v = Some w \<and>
                   column a' (Suc idx + i) = map Some w)"
    and frame: "\<And>j. j < Suc idx \<or> Suc idx + length rows \<le> j \<Longrightarrow> column a' j = column a1 j"
    by blast+
  have this_col: "column a' idx = map Some w"
    using frame [of idx] col1 [of idx] by simp
  have "idx + i < snd (shape a) \<and>
            (\<exists>v w. frombuffer dt (snd ((row # rows) ! i)) = Inr v \<and>
                   np_broadcast (fst (shape a)) v = Some w \<and>
                   column a' (idx + i) = map Some w)" if "i < length (row # rows)" for i
  proof (cases i)
    case 0
    then show ?thesis using idx v w this_col row by simp
  next
    case (Suc k)
    with that have "k < length rows" by simp
    from cols [OF this] show ?thesis by (simp add: Suc sh1)
  qed
  moreover have "column a' j = column a j" if "j < idx \<or> idx + length (row # rows) \<le> j" for j
  proof -
    from that have "j < Suc idx \<or> Suc idx + length rows \<le> j" and "j \<noteq> idx" by auto
    then show ?thesis using frame [of j] col1 [of j] by simp
  qed
  ultimately show ?case using sh sh1 dt' dt1 wf' by simp
qed

lemma load_full_loop_Inl:
  assumes "load_full_loop dt a idx rows = Inl e" and "idx + length rows \<le> snd (shape a)"
  shows "e = ValueError"
  using assms
proof (induction rows arbitrary: a idx)
  case Nil
  then show ?case by simp
next
  case (Cons row rows)
  obtain gene ranking where row: "row = (gene, ranking)" by (cases row)
  show ?case
  proof (cases "frombuffer dt ranking")
    case (Inl e1)
    then have "e1 = ValueError" by (simp add: frombuffer_def split: if_splits)
    with Inl Cons.prems(1) row show ?thesis by simp
  next
    case (Inr v)
    show ?thesis
    proof (cases "setitem_column a idx v")
      case (Inl e1)
      from setitem_column_Inl [OF Inl] Cons.prems(2) have "e1 = ValueError" by auto
      with Inl Inr Cons.prems(1) row show ?thesis by simp
    next
      case (Inr a1)
      from setitem_column_Inr [OF Inr] have "shape a1 = shape a" by simp
      with Cons.prems(2) have "Suc idx + length rows \<le> snd (shape a1)" by simp
      moreover from Cons.prems(1) row \<open>frombuffer dt ranking = Inr v\<close> Inr
      have "load_full_loop dt a1 (Suc idx) rows = Inl e" by simp
      ultimately show ?thesis by (rule Cons.IH [rotated])
    qed
  qed
qed

lemma frombuffer_length:
  "frombuffer dt buf = Inr v \<Longrightarrow> length buf mod itemsize dt = 0 \<and> length v = length buf div itemsize dt"
  by (auto simp: frombuffer_def split: if_splits)

lemma itemsize_pos: "0 < itemsize dt"
  by (cases dt) (simp_all add: itemsize_def)

lemma frombuffer_contract:
  assumes "length buf = n * itemsize dt"
  shows "\<exists>v. frombuffer dt buf = Inr v \<and> length v = n"
  using assms itemsize_pos [of dt] by (simp add: frombuffer_def)

lemma frombuffer_one_or_all:
  assumes "length buf = n * itemsize dt \<or> length buf = itemsize dt"
  shows "\<exists>v. frombuffer dt buf = Inr v \<and> (length v = n \<or> length v = 1)"
  using assms
proof
  assume "length buf = n * itemsize dt"
  from frombuffer_contract [OF this] show ?thesis by blast
next
  assume "length buf = itemsize dt"
  then have "length buf = 1 * itemsize dt" by simp
  from frombuffer_contract [OF this] show ?thesis by blast
qed

lemma load_full_loop_total:
  assumes "wf_array a" and "idx + length rows \<le> snd (shape a)"
    and "\<forall>row\<in>set rows. length (snd row) = fst (shape a) * itemsize dt \<or>
           length (snd row) = itemsize dt"
  shows "\<exists>a'. load_full_loop dt a idx rows = Inr a'"
  using assms
proof (induction rows arbitrary: a idx)
  case Nil
  then show ?case by simp
next
  case (Cons row rows)
  obtain gene ranking where row: "row = (gene, ranking)" by (cases row)
  from Cons.prems(3) row
  have "length ranking = fst (shape a) * itemsize dt \<or> length ranking = itemsize dt"
    by simp
  from frombuffer_one_or_all [OF this] obtain v where
    v: "frombuffer dt ranking = Inr v" and lv: "length v = fst (shape a) \<or> length v = 1"
    by blast
  from lv obtain w where w: "np_broadcast (fst (shape a)) v = Some w"
    using np_broadcast_Some_iff [of "fst (shape a)" v] by blast
  from Cons.prems(2) have idx: "idx < snd (shape a)" by simp
  from w idx obtain a1 where a1: "setitem_column a idx v = Inr a1"
    by (simp add: setitem_column_def)
  have wf1: "wf_array a1" using a1 Cons.prems(1) by (rule setitem_column_wf)
  from setitem_column_Inr [OF a1] have sh1: "shape a1 = shape a" by simp
  have "\<exists>a'. load_full_loop dt a1 (Suc idx) rows = Inr a'"
    using wf1 Cons.prems(2,3) by (intro Cons.IH) (simp_all add: sh1)
  then show ?case using row v a1 by simp
qed

lemma load_loop_eq:
  "load_loop dt a idx gv rows =
     (case load_full_loop dt a idx rows of
        Inl e \<Rightarrow> Inl e
      | Inr a' \<Rightarrow> Inr (gv @ map fst rows, a'))"
proof (induction rows arbitrary: a idx gv)
  case Nil
  then show ?case by simp
next
  case (Cons row rows)
  then show ?case by (cases row) (simp split: sum.splits)
qed


subsection \<open>Decoding\<close>

lemma take2_drop: "n + 2 \<le> length b \<Longrightarrow> take 2 (drop n b) = [b ! n, b ! (n + 1)]"
  by (rule nth_equalityI) (auto simp: less_Suc_eq numeral_2_eq_2)

lemma take4_drop:
  "n + 4 \<le> length b \<Longrightarrow> take 4 (drop n b) = [b ! n, b ! (n + 1), b ! (n + 2), b ! (n + 3)]"
  by (rule nth_equalityI) (auto simp: less_Suc_eq eval_nat_numeral)

lemma frombuffer_Int16_nth:
  assumes "frombuffer Int16 b = Inr v" and "f < length v"
  shows "v ! f =
    sint (word_of_int (uint (b ! (2 * f)) + 256 * uint (b ! (2 * f + 1))) :: 16 word)"
proof -
  from assms have v: "v = map (\<lambda>i. decode_item Int16 (take 2 (drop (i * 2) b)))
      [0 ..< length b div 2]" and even: "length b mod 2 = 0"
    by (auto simp: frombuffer_def itemsize_def split: if_splits)
  from assms(2) v have f: "f < length b div 2" by simp
  with even have "f * 2 + 2 \<le> length b" by presburger
  from take2_drop [OF this] f show ?thesis
    by (simp add: v decode_item_def le_uint_def mult.commute)
qed

lemma frombuffer_Int32_nth:
  assumes "frombuffer Int32 b = Inr v" and "f < length v"
  shows "v ! f =
    sint (word_of_int (uint (b ! (4 * f)) + 256 * uint (b ! (4 * f + 1)) +
            65536 * uint (b ! (4 * f + 2)) + 16777216 * uint (b ! (4 * f + 3))) :: 32 word)"
proof -
  from assms have v: "v = map (\<lambda>i. decode_item Int32 (take 4 (drop (i * 4) b)))
      [0 ..< length b div 4]" and even: "length b mod 4 = 0"
    by (auto simp: frombuffer_def itemsize_def split: if_splits)
  from assms(2) v have f: "f < length b div 4" by simp
  with even have "f * 4 + 4 \<le> length b" by presburger
  from take4_drop [OF this] f show ?thesis
    by (simp add: v decode_item_def le_uint_def ac_simps)
qed

lemma decoded_column:
  assumes "frombuffer dt b = Inr v"
  shows "(dt = Int16 \<longrightarrow> map Some v =
            map (\<lambda>f. Some (sint (word_of_int
                   (uint (b ! (2 * f)) + 256 * uint (b ! (2 * f + 1))) :: 16 word)))
              [0 ..< length v]) \<and>
         (dt = Int32 \<longrightarrow> map Some v =
            map (\<lambda>f. Some (sint (word_of_int
                   (uint (b ! (4 * f)) + 256 * uint (b ! (4 * f + 1)) +
                    65536 * uint (b ! (4 * f + 2)) + 16777216 * uint (b ! (4 * f + 3)))
                   :: 32 word)))
              [0 ..< length v])"
proof (cases dt)
  case Int16
  with assms have "frombuffer Int16 b = Inr v" by simp
  from frombuffer_Int16_nth [OF this] Int16 show ?thesis
    by (auto intro!: nth_equalityI)
next
  case Int32
  with assms have "frombuffer Int32 b = Inr v" by simp
  from frombuffer_Int32_nth [OF this] Int32 show ?thesis
    by (auto intro!: nth_equalityI)
qed

lemma itemsize_values: "itemsize Int16 = 2 \<and> itemsize Int32 = 4"
  by (simp add: itemsize_def)

lemma frombuffer_exact:
  assumes "frombuffer dt buf = Inr v" and "length buf = n * itemsize dt"
  shows "np_broadcast n v = Some v" and "length v = n"
proof -
  from frombuffer_length [OF assms(1)] assms(2) itemsize_pos [of dt] show "length v = n"
    by simp
  then show "np_broadcast n v = Some v" by (rule np_broadcast_exact)
qed

lemma frombuffer_single:
  assumes "frombuffer dt buf = Inr v" and "length buf = itemsize dt"
    and "np_broadcast n v = Some w"
  shows "\<exists>x. v = [x] \<and> w = replicate n x"
proof -
  from frombuffer_length [OF assms(1)] assms(2) itemsize_pos [of dt] have "length v = 1"
    by simp
  then obtain x where x: "v = [x]" by (cases v) auto
  with assms(3) have "w = replicate n x"
    by (cases "n = 1") (auto simp: np_broadcast_def)
  with x show ?thesis by blast
qed

subsection \<open>The methods\<close>

lemma init_Inr:
  assumes "init env f n nom = Inr self"
  shows "os_path_exists env f \<and> n \<noteq> [] \<and> nom \<noteq> [] \<and>
         (\<exists>s. sqlite3_open env (''file:'' @ os_path_abspath env f @ ''?mode=ro'') = Some s \<and>
           self = \<lparr>fname = f, name = n, nomenclature = nom,
                   uri = ''file:'' @ os_path_abspath env f @ ''?mode=ro'',
                   features = FEATURE_IDS_QUERY s, gene_count = GENE_ID_COUNT_QUERY s,
                   dtype = derive_dtype (GENE_ID_COUNT_QUERY s), genes_memo = None\<rparr>)"
  using assms
  by (cases "sqlite3_open env (''file:'' @ os_path_abspath env f @ ''?mode=ro'')")
     (auto simp: init_def sqlite3_connect_def Let_def split: if_splits)

lemma init_fields:
  assumes "init env path nm nomen = Inr self" and "sqlite3_open env (uri self) = Some s"
  shows "features self = FEATURE_IDS_QUERY s"
    and "gene_count self = GENE_ID_COUNT_QUERY s"
    and "dtype self = derive_dtype (GENE_ID_COUNT_QUERY s)" and "genes_memo self = None"
  using init_Inr [OF assms(1)] assms(2) by auto

lemma init_opens:
  assumes "init env path nm nomen = Inr self"
  shows "\<exists>s. sqlite3_open env (uri self) = Some s"
  using init_Inr [OF assms] by auto

lemma genes_fresh:
  assumes "sqlite3_open env (uri self) = Some s" and "genes_memo self = None"
  shows "genes env self =
    (Inr (ALL_GENE_IDS_QUERY s), self\<lparr>genes_memo := Some (ALL_GENE_IDS_QUERY s)\<rparr>)"
  using assms by (simp add: genes_def sqlite3_connect_def Let_def)

lemma genes_memoised:
  assumes "genes_memo self = Some gv"
  shows "genes env self = (Inr gv, self)"
  using assms by (simp add: genes_def)

lemma length_ALL_RANKINGS_QUERY: "length (ALL_RANKINGS_QUERY s) = length (rankings s)"
  by (simp add: ALL_RANKINGS_QUERY_def)

lemma length_ALL_GENE_IDS_QUERY: "length (ALL_GENE_IDS_QUERY s) = length (rankings s)"
  by (simp add: ALL_GENE_IDS_QUERY_def)


lemma load_full_fresh:
  assumes "sqlite3_open env (uri self) = Some s" and "genes_memo self = None"
  shows "load_full env self =
     (let self1 = self\<lparr>genes_memo := Some (ALL_GENE_IDS_QUERY s)\<rparr> in
      case load_full_loop (dtype self)
             (np_empty (length (features self), length (rankings s)) (dtype self)) 0
             (ALL_RANKINGS_QUERY s) of
        Inl e \<Rightarrow> (Inl e, self1)
      | Inr a \<Rightarrow> (Inr (features self, ALL_GENE_IDS_QUERY s, a), self1))"
  using assms
  by (simp add: load_full_def genes_fresh genes_memoised sqlite3_connect_def Let_def
        length_ALL_GENE_IDS_QUERY split: sum.splits)

subsection \<open>Quoting\<close>

lemma sql_literal_escape:
  assumes "rest = [] \<or> hd rest \<noteq> sq"
  shows "sql_literal (concat (map (\<lambda>c. if c = sq then [sq, sq] else [c]) v) @ sq # rest) =
    Some (v, rest)"
proof (induction v)
  case Nil
  then show ?case using assms by (cases rest) simp_all
next
  case (Cons c v)
  then show ?case by simp
qed

lemma comma_not_sq: "CHR '','' \<noteq> sq"
  by (simp add: sq_def)

lemma sql_literals_quoted:
  "sql_literals (join '','' (map quote (v # vs))) = Some (v # vs)"
proof (induction vs arbitrary: v)
  case Nil
  have "sql_literals (quote v) = Some [v]"
    by (subst sql_literals.simps) (simp add: quote_def sql_literal_escape)
  then show ?case by simp
next
  case (Cons u us)
  have "sql_literal (concat (map (\<lambda>c. if c = sq then [sq, sq] else [c]) v) @
          sq # CHR '','' # join '','' (map quote (u # us))) =
        Some (v, CHR '','' # join '','' (map quote (u # us)))"
    by (rule sql_literal_escape) (simp add: comma_not_sq)
  then have "sql_literals (quote v @ '','' @ join '','' (map quote (u # us))) =
      map_option ((#) v) (sql_literals (join '','' (map quote (u # us))))"
    by (subst sql_literals.simps) (simp add: quote_def)
  with Cons.IH [of u] show ?case by simp
qed

lemma quoted_csv_nonempty: "vs \<noteq> [] \<Longrightarrow> quoted_csv vs \<noteq> []"
  by (cases vs; cases "tl vs") (auto simp: quoted_csv_def quote_def)

lemma sql_in_list_quoted_csv: "sql_in_list (quoted_csv vs) = Some vs"
proof (cases vs)
  case Nil
  then show ?thesis by (simp add: sql_in_list_def quoted_csv_def)
next
  case (Cons v vs')
  then show ?thesis
    using quoted_csv_nonempty [of vs] sql_literals_quoted [of v vs']
    by (simp add: sql_in_list_def quoted_csv_def)
qed

lemma nul_quote: "(CHR 0x00 \<in> set (quote v)) = (CHR 0x00 \<in> set v)"
  by (auto simp: quote_def sq_def split: if_splits)

lemma nul_join: "(CHR 0x00 \<in> set (join '','' vs)) = (\<exists>v\<in>set vs. CHR 0x00 \<in> set v)"
  by (induction "'',''" vs rule: join.induct) auto

lemma nul_quoted_csv: "(CHR 0x00 \<in> set (quoted_csv gs)) = (CHR 0x00 \<in> set (concat gs))"
  by (simp add: quoted_csv_def nul_join nul_quote)

lemma RANKINGS_QUERY_quoted_csv:
  assumes "CHR 0x00 \<notin> set (concat gs)"
  shows "RANKINGS_QUERY s (quoted_csv gs) =
     Inr (sort_key fst (filter (\<lambda>row. fst row \<in> set gs) (rankings s)))"
  using assms by (simp add: RANKINGS_QUERY_def sql_in_list_quoted_csv nul_quoted_csv)

lemma RANKINGS_QUERY_nul:
  assumes "CHR 0x00 \<in> set (concat gs)"
  shows "RANKINGS_QUERY s (quoted_csv gs) = Inl QueryRefused"
  using assms by (simp add: RANKINGS_QUERY_def nul_quoted_csv)

lemma load_unfold:
  assumes "sqlite3_open env (uri self) = Some s" and "gs \<noteq> []"
    and "CHR 0x00 \<notin> set (concat gs)"
  shows "load env self gs =
     (case load_full_loop (dtype self)
             (np_empty (length (features self), length gs) (dtype self)) 0
             (sort_key fst (filter (\<lambda>row. fst row \<in> set gs) (rankings s))) of
        Inl e \<Rightarrow> (Inl e, self)
      | Inr a \<Rightarrow>
          (Inr (features self,
                map fst (sort_key fst (filter (\<lambda>row. fst row \<in> set gs) (rankings s))), a),
           self))"
  using assms
  by (simp add: load_def sqlite3_connect_def RANKINGS_QUERY_quoted_csv load_loop_eq Let_def
        split: sum.splits)

lemma load_nul:
  assumes "sqlite3_open env (uri self) = Some s" and "CHR 0x00 \<in> set (concat gs)"
  shows "load env self gs = (Inl QueryRefused, self)"
proof -
  from assms(2) have "gs \<noteq> []" by auto
  with assms show ?thesis
    by (simp add: load_def sqlite3_connect_def RANKINGS_QUERY_nul Let_def)
qed

lemma load_Inr_request:
  assumes "sqlite3_open env (uri self) = Some s" and "fst (load env self gs) = Inr r"
  shows "gs \<noteq> []" and "CHR 0x00 \<notin> set (concat gs)"
proof -
  from assms(2) show "gs \<noteq> []" by (auto simp: load_def)
  show "CHR 0x00 \<notin> set (concat gs)"
  proof
    assume "CHR 0x00 \<in> set (concat gs)"
    from load_nul [OF assms(1) this] assms(2) show False by simp
  qed
qed

lemma load_state:
  "snd (load env self gs) = self"
  by (simp add: load_def Let_def split: sum.splits prod.splits)

subsection \<open>Sorted rows, malformed blobs\<close>

lemma map_insort_key: "map f (insort_key f x xs) = insort (f x) (map f xs)"
  by (induction xs) simp_all

lemma map_sort_key: "map f (sort_key f xs) = sort (map f xs)"
  by (induction xs) (simp_all add: map_insort_key)

lemma load_full_loop_rows_ok:
  assumes "load_full_loop dt a idx rows = Inr a'" and "wf_array a" and "row \<in> set rows"
  shows "\<exists>v w. frombuffer dt (snd row) = Inr v \<and> np_broadcast (fst (shape a)) v = Some w"
proof -
  from assms(3) obtain i where "i < length rows" and "rows ! i = row"
    by (auto simp: in_set_conv_nth)
  with load_full_loop_Inr [OF assms(1,2)] show ?thesis by blast
qed

lemma load_full_loop_fits:
  assumes "load_full_loop dt a idx rows = Inr a'" and "wf_array a"
  shows "length rows \<le> snd (shape a) - idx"
proof (cases rows)
  case Nil
  then show ?thesis by simp
next
  case (Cons r rs)
  then have "length rows - 1 < length rows" by simp
  with load_full_loop_Inr [OF assms] have "idx + (length rows - 1) < snd (shape a)" by blast
  then show ?thesis by simp
qed

lemma length_filter_distinct_keys:
  assumes "distinct (map fst rows)"
  shows "length (filter (\<lambda>row. fst row \<in> set gs) rows) \<le> card (set gs)"
proof -
  let ?m = "filter (\<lambda>row. fst row \<in> set gs) rows"
  have "distinct (map fst ?m)" using assms by (rule distinct_map_filter)
  from distinct_card [OF this] have "length ?m = card (set (map fst ?m))"
    by (simp only: length_map)
  also have "\<dots> \<le> card (set gs)" by (rule card_mono) auto
  finally show ?thesis .
qed

lemma malformed_blob_refused:
  assumes "length buf mod itemsize dt \<noteq> 0 \<or>
           (length buf div itemsize dt \<noteq> n \<and> length buf div itemsize dt \<noteq> 1)"
  shows "\<not> (\<exists>v w. frombuffer dt buf = Inr v \<and> np_broadcast n v = Some w)"
proof
  assume "\<exists>v w. frombuffer dt buf = Inr v \<and> np_broadcast n v = Some w"
  then obtain v w where v: "frombuffer dt buf = Inr v" and w: "np_broadcast n v = Some w"
    by blast
  from w have "length v = n \<or> length v = 1"
    using np_broadcast_Some_iff [of n v] by blast
  with frombuffer_length [OF v] assms show False by simp
qed

lemma load_full_loop_malformed:
  assumes "wf_array a" and "row \<in> set rows"
    and "length (snd row) mod itemsize dt \<noteq> 0 \<or>
         (length (snd row) div itemsize dt \<noteq> fst (shape a) \<and>
          length (snd row) div itemsize dt \<noteq> 1)"
  shows "\<exists>e. load_full_loop dt a idx rows = Inl e"
proof (cases "load_full_loop dt a idx rows")
  case (Inl e)
  then show ?thesis by simp
next
  case (Inr a')
  from load_full_loop_rows_ok [OF Inr assms(1,2)] malformed_blob_refused [OF assms(3)]
  show ?thesis by blast
qed

subsection \<open>The examples\<close>

lemma example_opens:
  "sqlite3_open example_env (uri example_db) = Some example_store"
  "sqlite3_open example_env (uri signed_db) = Some signed_store"
  "sqlite3_open example_env (uri short_db) = Some short_store"
  "sqlite3_open example_env (uri torn_db) = Some torn_store"
  "sqlite3_open example_env (uri empty_db) = Some empty_store"
  "sqlite3_open example_env (uri twin_db) = Some twin_store"
  "sqlite3_open example_env (uri nul_db) = Some nul_store"
  by (simp_all add: example_env_def example_object_def example_db_def signed_db_def
        short_db_def torn_db_def empty_db_def twin_db_def nul_db_def)

lemma init_example: "init example_env ''rankings.db'' ''db'' ''HGNC'' = Inr example_db"
  by (simp add: init_def sqlite3_connect_def example_env_def example_store_def
        example_db_def example_object_def FEATURE_IDS_QUERY_def GENE_ID_COUNT_QUERY_def
        derive_dtype_def)


lemma init_short: "init example_env ''short.db'' ''db'' ''HGNC'' = Inr short_db"
  by (simp add: init_def sqlite3_connect_def example_env_def short_store_def
        short_db_def example_object_def FEATURE_IDS_QUERY_def GENE_ID_COUNT_QUERY_def
        derive_dtype_def)

lemma init_torn: "init example_env ''torn.db'' ''db'' ''HGNC'' = Inr torn_db"
  by (simp add: init_def sqlite3_connect_def example_env_def torn_store_def
        torn_db_def example_object_def FEATURE_IDS_QUERY_def GENE_ID_COUNT_QUERY_def
        derive_dtype_def)

lemma init_empty: "init example_env ''empty.db'' ''db'' ''HGNC'' = Inr empty_db"
  by (simp add: init_def sqlite3_connect_def example_env_def empty_store_def
        empty_db_def example_object_def FEATURE_IDS_QUERY_def GENE_ID_COUNT_QUERY_def
        derive_dtype_def)

lemma init_twin: "init example_env ''twin.db'' ''db'' ''HGNC'' = Inr twin_db"
  by (simp add: init_def sqlite3_connect_def example_env_def twin_store_def
        twin_db_def example_object_def FEATURE_IDS_QUERY_def GENE_ID_COUNT_QUERY_def
        derive_dtype_def)

lemma init_nul: "init example_env ''nul.db'' ''db'' ''HGNC'' = Inr nul_db"
  by (simp add: init_def sqlite3_connect_def example_env_def nul_store_def
        nul_db_def example_object_def FEATURE_IDS_QUERY_def GENE_ID_COUNT_QUERY_def
        derive_dtype_def)

lemma load_full_example:
  "fst (load_full example_env example_db) =
     Inr ([''f1'', ''f2'', ''f3''], [''g1'', ''g2'', ''g3'', ''g4''], example_full)"
  by code_simp

lemma load_example:
  "fst (load example_env example_db [''g4'', ''g2'', ''gX'']) =
     Inr ([''f1'', ''f2'', ''f3''], [''g2'', ''g4''], example_part)"
  by code_simp

section \<open>The claims\<close>






text \<open>
  C3, as amended. For every database and every non-empty requested gene set, the gene
  vector that \<open>load\<close> returns is sorted in ascending lexical order of identifier, each
  of its identifiers is a requested one, and it is no longer than the request: it
  lists, in order, the identifiers of the store that were requested, so that a
  requested identifier absent from the store is left out. Absent identifiers raise no
  error as long as no requested identifier contains a NUL character: then \<open>load\<close>
  returns when the identifiers of the store are distinct and the blobs of the requested
  rows hold one rank per feature. A request with a NUL character in one of its
  identifiers is refused as a whole.
\<close>

theorem load_genes_sorted_subset:
  assumes "sqlite3_open env (uri self) = Some s" and "gs \<noteq> []"
  shows "(\<forall>fv gv a. fst (load env self gs) = Inr (fv, gv, a) \<longrightarrow>
            sorted gv \<and> set gv \<subseteq> set gs \<and> length gv \<le> length gs \<and>
            (distinct gs \<longrightarrow> length gv \<le> card (set gs)) \<and>
            gv = sort (filter (\<lambda>g. g \<in> set gs) (map fst (rankings s))) \<and>
            (\<forall>g\<in>set gs. g \<notin> fst ` set (rankings s) \<longrightarrow> g \<notin> set gv)) \<and>
         (CHR 0x00 \<notin> set (concat gs) \<and> distinct (map fst (rankings s)) \<and>
          (\<forall>row\<in>set (rankings s).
             fst row \<in> set gs \<longrightarrow>
             length (snd row) = length (features self) * itemsize (dtype self)) \<longrightarrow>
          (\<exists>a. fst (load env self gs) =
                 Inr (features self,
                      sort (filter (\<lambda>g. g \<in> set gs) (map fst (rankings s))), a))) \<and>
         (CHR 0x00 \<in> set (concat gs) \<longrightarrow> load env self gs = (Inl QueryRefused, self))"
proof -
  define rows where "rows = sort_key fst (filter (\<lambda>row. fst row \<in> set gs) (rankings s))"
  define a0 where "a0 = np_empty (length (features self), length gs) (dtype self)"
  have ids: "map fst rows = sort (filter (\<lambda>g. g \<in> set gs) (map fst (rankings s)))"
    by (simp add: rows_def map_sort_key filter_map comp_def)
  have wf0: "wf_array a0"
    unfolding a0_def by (rule wf_np_empty)
  have sh0: "shape a0 = (length (features self), length gs)"
    by (simp add: a0_def np_empty_def)
  have unfold: "fst (load env self gs) =
      (case load_full_loop (dtype self) a0 0 rows of
         Inl e \<Rightarrow> Inl e
       | Inr a \<Rightarrow> Inr (features self, map fst rows, a))"
    if "CHR 0x00 \<notin> set (concat gs)"
    using that
    by (simp add: load_unfold [of env self s gs, OF assms] a0_def rows_def split: sum.splits)
  have part1: "sorted gv \<and> set gv \<subseteq> set gs \<and> length gv \<le> length gs \<and>
            (distinct gs \<longrightarrow> length gv \<le> card (set gs)) \<and>
            gv = sort (filter (\<lambda>g. g \<in> set gs) (map fst (rankings s))) \<and>
            (\<forall>g\<in>set gs. g \<notin> fst ` set (rankings s) \<longrightarrow> g \<notin> set gv)"
    if ret: "fst (load env self gs) = Inr (fv, gv, a)" for fv gv a
  proof -
    from load_Inr_request [OF assms(1) ret] have "CHR 0x00 \<notin> set (concat gs)" by simp
    from ret unfold [OF this] have loop: "load_full_loop (dtype self) a0 0 rows = Inr a"
      and gv: "gv = map fst rows"
      by (auto split: sum.splits)
    from load_full_loop_fits [OF loop wf0] have fits: "length gv \<le> length gs"
      by (simp add: sh0 gv)
    have "sorted gv" by (simp add: gv ids)
    moreover have "set gv \<subseteq> set gs" by (auto simp: gv ids)
    moreover have "distinct gs \<longrightarrow> length gv \<le> card (set gs)"
      using fits by (simp add: distinct_card)
    moreover have "\<forall>g\<in>set gs. g \<notin> fst ` set (rankings s) \<longrightarrow> g \<notin> set gv"
      by (auto simp: gv ids)
    ultimately show ?thesis using fits gv ids by simp
  qed
  have part2: "\<exists>a. fst (load env self gs) =
                 Inr (features self, sort (filter (\<lambda>g. g \<in> set gs) (map fst (rankings s))), a)"
    if nul: "CHR 0x00 \<notin> set (concat gs)" and d: "distinct (map fst (rankings s))"
      and contract: "\<forall>row\<in>set (rankings s).
             fst row \<in> set gs \<longrightarrow>
             length (snd row) = length (features self) * itemsize (dtype self)"
  proof -
    have "length rows \<le> card (set gs)"
      using length_filter_distinct_keys [OF d, of gs] by (simp add: rows_def)
    also have "\<dots> \<le> length gs" by (rule card_length)
    finally have "0 + length rows \<le> snd (shape a0)" by (simp add: sh0)
    moreover
    have "\<forall>row\<in>set rows. length (snd row) = fst (shape a0) * itemsize (dtype self) \<or>
            length (snd row) = itemsize (dtype self)"
      using contract by (simp add: rows_def sh0)
    ultimately obtain a where "load_full_loop (dtype self) a0 0 rows = Inr a"
      using load_full_loop_total [OF wf0] by blast
    with unfold [OF nul] ids show ?thesis by simp
  qed
  have part3: "load env self gs = (Inl QueryRefused, self)"
    if "CHR 0x00 \<in> set (concat gs)"
    using assms(1) that by (rule load_nul)
  from part1 part2 part3 show ?thesis by blast
qed

theorem load_genes_sorted_subset_witness:
  "sqlite3_open example_env (uri example_db) = Some example_store \<and>
   [''g4'', ''g2'', ''gX''] \<noteq> [] \<and>
   CHR 0x00 \<notin> set (concat [''g4'', ''g2'', ''gX'']) \<and>
   fst (load example_env example_db [''g4'', ''g2'', ''gX'']) =
     Inr ([''f1'', ''f2'', ''f3''], [''g2'', ''g4''], example_part) \<and>
   sorted [''g2'', ''g4''] \<and> set [''g2'', ''g4''] \<subseteq> set [''g4'', ''g2'', ''gX''] \<and>
   ''gX'' \<notin> fst ` set (rankings example_store) \<and> ''gX'' \<notin> set [''g2'', ''g4''] \<and>
   distinct (map fst (rankings example_store))"
proof -
  have h1: "sqlite3_open example_env (uri example_db) = Some example_store"
    by (rule example_opens)
  have h2: "[''g4'', ''g2'', ''gX''] \<noteq> []" by simp
  have h3: "fst (load example_env example_db [''g4'', ''g2'', ''gX'']) =
     Inr ([''f1'', ''f2'', ''f3''], [''g2'', ''g4''], example_part)"
    by (rule load_example)
  from load_genes_sorted_subset [of example_env example_db example_store, OF h1 h2] h3
  have "sorted [''g2'', ''g4''] \<and> set [''g2'', ''g4''] \<subseteq> set [''g4'', ''g2'', ''gX'']"
    by blast
  moreover have "''gX'' \<notin> fst ` set (rankings example_store)"
    and "distinct (map fst (rankings example_store))"
    by (simp_all add: example_store_def)
  ultimately show ?thesis using h1 h3 by simp
qed

text \<open>
  C3 as stated fails: \<open>nul_id\<close> is absent from \<open>example_store\<close>; the request for g2
  alone returns, and the request for g2 and \<open>nul_id\<close> raises an error.
\<close>

theorem load_absent_nul_identifier:
  "sqlite3_open example_env (uri example_db) = Some example_store \<and>
   nul_id \<notin> fst ` set (rankings example_store) \<and>
   fst (load example_env example_db [''g2'']) =
     Inr ([''f1'', ''f2'', ''f3''], [''g2''],
          \<lparr>shape = (3, 1), adtype = Int16, cells = [[Some 1], [Some 2], [Some 0]]\<rparr>) \<and>
   load example_env example_db [''g2'', nul_id] = (Inl QueryRefused, example_db)"
proof -
  have "nul_id \<notin> fst ` set (rankings example_store)"
    by (simp add: example_store_def nul_id_def)
  moreover have "fst (load example_env example_db [''g2'']) =
     Inr ([''f1'', ''f2'', ''f3''], [''g2''],
          \<lparr>shape = (3, 1), adtype = Int16, cells = [[Some 1], [Some 2], [Some 0]]\<rparr>)"
    by code_simp
  moreover have "load example_env example_db [''g2'', nul_id] = (Inl QueryRefused, example_db)"
    by (rule load_nul [OF example_opens(1)]) (simp add: nul_id_def)
  ultimately show ?thesis using example_opens(1) by simp
qed

text \<open>
  C4, as amended. The rank width is two bytes for 16-bit and four bytes for 32-bit
  ranks. During a load, full or filtered, a returned blob whose byte length is no
  multiple of the rank width, or whose number of decoded ranks is neither the number of
  features nor one, makes the load fail, and no matrix is returned: \<open>load_full\<close> raises
  ValueError; \<open>load\<close> raises an error and leaves the object as it was, and the error
  is ValueError when the identifiers of the store are distinct and no requested
  identifier contains a NUL character. A blob of exactly one rank is accepted: when
  every blob of the store has either one rank per feature or one rank, \<open>load_full\<close>
  returns, and the column of a blob of one rank holds that rank in every row; \<open>load\<close>
  returns too, for a non-empty request without NUL characters on a store with distinct
  identifiers.
\<close>

theorem malformed_blob_fails:
  assumes "init env path nm nomen = Inr self" and "sqlite3_open env (uri self) = Some s"
  shows "itemsize Int16 = 2 \<and> itemsize Int32 = 4 \<and>
         (\<forall>row\<in>set (rankings s).
            length (snd row) mod itemsize (dtype self) \<noteq> 0 \<or>
            (length (snd row) div itemsize (dtype self) \<noteq> length (features self) \<and>
             length (snd row) div itemsize (dtype self) \<noteq> 1) \<longrightarrow>
            load_full env self =
              (Inl ValueError, self\<lparr>genes_memo := Some (ALL_GENE_IDS_QUERY s)\<rparr>) \<and>
            (\<forall>gs. fst row \<in> set gs \<longrightarrow>
               (\<exists>e. load env self gs = (Inl e, self)) \<and>
               (distinct (map fst (rankings s)) \<and> CHR 0x00 \<notin> set (concat gs) \<longrightarrow>
                  load env self gs = (Inl ValueError, self)))) \<and>
         ((\<forall>row\<in>set (rankings s).
             length (snd row) = length (features self) * itemsize (dtype self) \<or>
             length (snd row) = itemsize (dtype self)) \<longrightarrow>
            (\<exists>a. fst (load_full env self) = Inr (features self, ALL_GENE_IDS_QUERY s, a) \<and>
               (\<forall>g<length (rankings s).
                  length (snd (ALL_RANKINGS_QUERY s ! g)) = itemsize (dtype self) \<longrightarrow>
                  (\<exists>x. frombuffer (dtype self) (snd (ALL_RANKINGS_QUERY s ! g)) = Inr [x] \<and>
                       column a g = replicate (length (features self)) (Some x)))) \<and>
            (\<forall>gs. gs \<noteq> [] \<and> CHR 0x00 \<notin> set (concat gs) \<and>
                  distinct (map fst (rankings s)) \<longrightarrow>
               (\<exists>a. fst (load env self gs) =
                  Inr (features self,
                       sort (filter (\<lambda>g. g \<in> set gs) (map fst (rankings s))), a))))"
proof -
  note f = init_fields [OF assms]
  define F where "F = length (features self)"
  define dt where "dt = dtype self"
  define a0 where "a0 = np_empty (F, length (rankings s)) dt"
  have wf0: "wf_array a0"
    unfolding a0_def by (rule wf_np_empty)
  have sh0: "shape a0 = (F, length (rankings s))"
    by (simp add: a0_def np_empty_def)
  have fits0: "0 + length (ALL_RANKINGS_QUERY s) \<le> snd (shape a0)"
    by (simp add: sh0 length_ALL_RANKINGS_QUERY)
  have full: "load_full env self =
      (let self1 = self\<lparr>genes_memo := Some (ALL_GENE_IDS_QUERY s)\<rparr> in
       case load_full_loop dt a0 0 (ALL_RANKINGS_QUERY s) of
         Inl e \<Rightarrow> (Inl e, self1)
       | Inr a \<Rightarrow> (Inr (features self, ALL_GENE_IDS_QUERY s, a), self1))"
    using assms(2) f(4) by (simp add: load_full_fresh a0_def F_def dt_def)
  have wfg: "wf_array (np_empty (F, length gs) dt)" for gs :: "string list"
    by (rule wf_np_empty)
  have shg: "shape (np_empty (F, length gs) dt) = (F, length gs)" for gs :: "string list"
    by (simp add: np_empty_def)
  have fitsg: "0 + length (sort_key fst (filter (\<lambda>row. fst row \<in> set gs) (rankings s)))
      \<le> snd (shape (np_empty (F, length gs) dt))"
    if d: "distinct (map fst (rankings s))" for gs
  proof -
    have "length (filter (\<lambda>row. fst row \<in> set gs) (rankings s)) \<le> card (set gs)"
      using d by (rule length_filter_distinct_keys)
    also have "\<dots> \<le> length gs" by (rule card_length)
    finally show ?thesis by (simp add: shg)
  qed
  have failing: "load_full env self =
              (Inl ValueError, self\<lparr>genes_memo := Some (ALL_GENE_IDS_QUERY s)\<rparr>) \<and>
            (\<forall>gs. fst row \<in> set gs \<longrightarrow>
               (\<exists>e. load env self gs = (Inl e, self)) \<and>
               (distinct (map fst (rankings s)) \<and> CHR 0x00 \<notin> set (concat gs) \<longrightarrow>
                  load env self gs = (Inl ValueError, self)))"
    if row: "row \<in> set (rankings s)"
      and bad: "length (snd row) mod itemsize dt \<noteq> 0 \<or>
            (length (snd row) div itemsize dt \<noteq> F \<and> length (snd row) div itemsize dt \<noteq> 1)"
    for row
  proof -
    have "row \<in> set (ALL_RANKINGS_QUERY s)"
      using row by (simp add: ALL_RANKINGS_QUERY_def)
    from load_full_loop_malformed [OF wf0 this, of dt 0] bad obtain e where
      e: "load_full_loop dt a0 0 (ALL_RANKINGS_QUERY s) = Inl e"
      by (auto simp: sh0)
    from e fits0 have "e = ValueError" by (rule load_full_loop_Inl)
    with e full have one: "load_full env self =
              (Inl ValueError, self\<lparr>genes_memo := Some (ALL_GENE_IDS_QUERY s)\<rparr>)"
      by simp
    have two: "(\<exists>e. load env self gs = (Inl e, self)) \<and>
               (distinct (map fst (rankings s)) \<and> CHR 0x00 \<notin> set (concat gs) \<longrightarrow>
                  load env self gs = (Inl ValueError, self))"
      if sel: "fst row \<in> set gs" for gs
    proof (cases "CHR 0x00 \<in> set (concat gs)")
      case True
      from load_nul [OF assms(2) True] show ?thesis using True by simp
    next
      case False
      define rows where
        "rows = sort_key fst (filter (\<lambda>row. fst row \<in> set gs) (rankings s))"
      from sel have gs: "gs \<noteq> []" by auto
      have "row \<in> set rows" using row sel by (simp add: rows_def)
      from load_full_loop_malformed [OF wfg this, of dt gs 0] bad obtain e where
        e: "load_full_loop dt (np_empty (F, length gs) dt) 0 rows = Inl e"
        by (auto simp: shg)
      have l: "load env self gs = (Inl e, self)"
        using e
        by (simp add: load_unfold [of env self s gs, OF assms(2) gs False] rows_def F_def dt_def)
      have "e = ValueError" if d: "distinct (map fst (rankings s))"
        using e fitsg [OF d, of gs] unfolding rows_def by (rule load_full_loop_Inl)
      with l show ?thesis by auto
    qed
    from one two show ?thesis by blast
  qed
  have accepting: "(\<exists>a. fst (load_full env self) = Inr (features self, ALL_GENE_IDS_QUERY s, a) \<and>
               (\<forall>g<length (rankings s).
                  length (snd (ALL_RANKINGS_QUERY s ! g)) = itemsize dt \<longrightarrow>
                  (\<exists>x. frombuffer dt (snd (ALL_RANKINGS_QUERY s ! g)) = Inr [x] \<and>
                       column a g = replicate F (Some x)))) \<and>
            (\<forall>gs. gs \<noteq> [] \<and> CHR 0x00 \<notin> set (concat gs) \<and>
                  distinct (map fst (rankings s)) \<longrightarrow>
               (\<exists>a. fst (load env self gs) =
                  Inr (features self,
                       sort (filter (\<lambda>g. g \<in> set gs) (map fst (rankings s))), a)))"
    if ok: "\<forall>row\<in>set (rankings s).
             length (snd row) = F * itemsize dt \<or> length (snd row) = itemsize dt"
  proof -
    have "\<forall>row\<in>set (ALL_RANKINGS_QUERY s).
        length (snd row) = fst (shape a0) * itemsize dt \<or> length (snd row) = itemsize dt"
      using ok by (simp add: ALL_RANKINGS_QUERY_def sh0)
    from load_full_loop_total [OF wf0 fits0 this] obtain a where
      a: "load_full_loop dt a0 0 (ALL_RANKINGS_QUERY s) = Inr a"
      by blast
    from load_full_loop_Inr [OF a wf0] have
      cols: "\<And>i. i < length (ALL_RANKINGS_QUERY s) \<Longrightarrow>
            \<exists>v w. frombuffer dt (snd (ALL_RANKINGS_QUERY s ! i)) = Inr v \<and>
                   np_broadcast (fst (shape a0)) v = Some w \<and> column a i = map Some w"
      by auto
    have "\<exists>x. frombuffer dt (snd (ALL_RANKINGS_QUERY s ! g)) = Inr [x] \<and>
                       column a g = replicate F (Some x)"
      if g: "g < length (rankings s)"
        and one: "length (snd (ALL_RANKINGS_QUERY s ! g)) = itemsize dt" for g
    proof -
      from g have "g < length (ALL_RANKINGS_QUERY s)"
        by (simp add: length_ALL_RANKINGS_QUERY)
      from cols [OF this] obtain v w where
        v: "frombuffer dt (snd (ALL_RANKINGS_QUERY s ! g)) = Inr v"
        and w: "np_broadcast (fst (shape a0)) v = Some w" and c: "column a g = map Some w"
        by blast
      from frombuffer_single [OF v one w] obtain x where "v = [x]" and "w = replicate F x"
        by (auto simp: sh0)
      with v c show ?thesis by simp
    qed
    with a full have one: "\<exists>a. fst (load_full env self) =
          Inr (features self, ALL_GENE_IDS_QUERY s, a) \<and>
               (\<forall>g<length (rankings s).
                  length (snd (ALL_RANKINGS_QUERY s ! g)) = itemsize dt \<longrightarrow>
                  (\<exists>x. frombuffer dt (snd (ALL_RANKINGS_QUERY s ! g)) = Inr [x] \<and>
                       column a g = replicate F (Some x)))"
      by (intro exI [of _ a]) simp
    have two: "\<exists>a. fst (load env self gs) =
                  Inr (features self,
                       sort (filter (\<lambda>g. g \<in> set gs) (map fst (rankings s))), a)"
      if gs: "gs \<noteq> []" and nul: "CHR 0x00 \<notin> set (concat gs)"
        and d: "distinct (map fst (rankings s))" for gs
    proof -
      define rows where
        "rows = sort_key fst (filter (\<lambda>row. fst row \<in> set gs) (rankings s))"
      have ids: "map fst rows = sort (filter (\<lambda>g. g \<in> set gs) (map fst (rankings s)))"
        by (simp add: rows_def map_sort_key filter_map comp_def)
      have "\<forall>row\<in>set rows.
          length (snd row) = fst (shape (np_empty (F, length gs) dt)) * itemsize dt \<or>
          length (snd row) = itemsize dt"
        using ok by (simp add: rows_def shg)
      from load_full_loop_total [OF wfg fitsg [OF d, of gs, folded rows_def] this]
      obtain a where "load_full_loop dt (np_empty (F, length gs) dt) 0 rows = Inr a"
        by blast
      then show ?thesis
        using ids
        by (simp add: load_unfold [of env self s gs, OF assms(2) gs nul] rows_def F_def dt_def)
    qed
    from one two show ?thesis by blast
  qed
  from failing accepting itemsize_values show ?thesis
    unfolding F_def dt_def by blast
qed

theorem malformed_blob_fails_witness:
  "init example_env ''torn.db'' ''db'' ''HGNC'' = Inr torn_db \<and>
   sqlite3_open example_env (uri torn_db) = Some torn_store \<and>
   (''g2'', [1, 0, 0]) \<in> set (rankings torn_store) \<and>
   length [1, 0, 0 :: byte] mod itemsize (dtype torn_db) \<noteq> 0 \<and>
   distinct (map fst (rankings torn_store)) \<and>
   CHR 0x00 \<notin> set (concat [''g2'']) \<and>
   load_full example_env torn_db =
     (Inl ValueError, torn_db\<lparr>genes_memo := Some (ALL_GENE_IDS_QUERY torn_store)\<rparr>) \<and>
   load example_env torn_db [''g2''] = (Inl ValueError, torn_db) \<and>
   list_all (\<lambda>row. length (snd row) = length (features short_db) * itemsize (dtype short_db) \<or>
                    length (snd row) = itemsize (dtype short_db)) (rankings short_store) \<and>
   (\<exists>a. fst (load_full example_env short_db) =
          Inr (features short_db, ALL_GENE_IDS_QUERY short_store, a))"
proof -
  have h1: "init example_env ''torn.db'' ''db'' ''HGNC'' = Inr torn_db"
    by (rule init_torn)
  have h2: "sqlite3_open example_env (uri torn_db) = Some torn_store"
    by (rule example_opens)
  have h3: "(''g2'', [1, 0, 0]) \<in> set (rankings torn_store)"
    by (simp add: torn_store_def)
  have h4: "length [1, 0, 0 :: byte] mod itemsize (dtype torn_db) \<noteq> 0"
    by (simp add: torn_db_def example_object_def itemsize_def)
  have h5: "distinct (map fst (rankings torn_store))"
    by (simp add: torn_store_def)
  have h6: "CHR 0x00 \<notin> set (concat [''g2''])"
    by simp
  from malformed_blob_fails [OF h1 h2] h3 h4
  have "load_full example_env torn_db =
       (Inl ValueError, torn_db\<lparr>genes_memo := Some (ALL_GENE_IDS_QUERY torn_store)\<rparr>) \<and>
     (\<forall>gs. fst (''g2'', [1, 0, 0 :: byte]) \<in> set gs \<longrightarrow>
         (\<exists>e. load example_env torn_db gs = (Inl e, torn_db)) \<and>
         (distinct (map fst (rankings torn_store)) \<and> CHR 0x00 \<notin> set (concat gs) \<longrightarrow>
            load example_env torn_db gs = (Inl ValueError, torn_db)))"
    by fastforce
  with h5 h6 have r1: "load_full example_env torn_db =
       (Inl ValueError, torn_db\<lparr>genes_memo := Some (ALL_GENE_IDS_QUERY torn_store)\<rparr>)"
    and r2: "load example_env torn_db [''g2''] = (Inl ValueError, torn_db)"
    by auto
  have k1: "init example_env ''short.db'' ''db'' ''HGNC'' = Inr short_db"
    by (rule init_short)
  have k2: "sqlite3_open example_env (uri short_db) = Some short_store"
    by (rule example_opens)
  have k3: "\<forall>row\<in>set (rankings short_store).
      length (snd row) = length (features short_db) * itemsize (dtype short_db) \<or>
      length (snd row) = itemsize (dtype short_db)"
    by (simp add: short_store_def short_db_def example_object_def itemsize_def)
  from malformed_blob_fails [OF k1 k2] k3
  have r3: "\<exists>a. fst (load_full example_env short_db) =
          Inr (features short_db, ALL_GENE_IDS_QUERY short_store, a)"
    by blast
  from k3 have r4: "list_all (\<lambda>row. length (snd row) =
        length (features short_db) * itemsize (dtype short_db) \<or>
        length (snd row) = itemsize (dtype short_db)) (rankings short_store)"
    by (simp add: list_all_iff)
  from h1 h2 h3 h4 h5 h6 r1 r2 r3 r4 show ?thesis by blast
qed

text \<open>
  C4 as stated fails: in \<open>short_store\<close> the blob of the one gene decodes to one rank
  while there are three features, and both loads return, with that rank repeated
  down the column.
\<close>

theorem single_rank_blob_accepted:
  "init example_env ''short.db'' ''db'' ''HGNC'' = Inr short_db \<and>
   length (features short_db) = 3 \<and>
   frombuffer (dtype short_db) [5, 0] = Inr [5] \<and>
   fst (load_full example_env short_db) =
     Inr ([''f1'', ''f2'', ''f3''], [''g1''],
          \<lparr>shape = (3, 1), adtype = Int16, cells = [[Some 5], [Some 5], [Some 5]]\<rparr>) \<and>
   fst (load example_env short_db [''g1'']) =
     Inr ([''f1'', ''f2'', ''f3''], [''g1''],
          \<lparr>shape = (3, 1), adtype = Int16, cells = [[Some 5], [Some 5], [Some 5]]\<rparr>)"
proof -
  have "frombuffer (dtype short_db) [5, 0] = Inr [5]"
    by code_simp
  moreover have "fst (load_full example_env short_db) =
     Inr ([''f1'', ''f2'', ''f3''], [''g1''],
          \<lparr>shape = (3, 1), adtype = Int16, cells = [[Some 5], [Some 5], [Some 5]]\<rparr>)"
    by code_simp
  moreover have "fst (load example_env short_db [''g1'']) =
     Inr ([''f1'', ''f2'', ''f3''], [''g1''],
          \<lparr>shape = (3, 1), adtype = Int16, cells = [[Some 5], [Some 5], [Some 5]]\<rparr>)"
    by code_simp
  ultimately show ?thesis using init_short by (simp add: short_db_def example_object_def)
qed

text \<open>
  C5, as amended. The rank width is two bytes for 16-bit and four bytes for 32-bit
  ranks. For every filtered load that returns, the matrix has as many rows as there are
  features and as many columns as there are requested genes; the returned gene vector
  lists the identifiers of the returned rows and is at most that long; for every
  \<open>i\<close> below its length whose blob has as many bytes as the number of features times
  the rank width, column \<open>i\<close> is the sequence of the ranks decoded from the blob of the
  \<open>i\<close>-th returned row, rank \<open>f\<close> being the two's complement value of the bytes
  \<open>2f\<close>, \<open>2f + 1\<close> (or \<open>4f\<close> to \<open>4f + 3\<close>), least significant first; and every
  later column was never written.
\<close>

theorem load_matrix_columns:
  assumes "sqlite3_open env (uri self) = Some s"
    and "fst (load env self gs) = Inr (fv, gv, a)"
  shows "itemsize Int16 = 2 \<and> itemsize Int32 = 4 \<and>
         (\<exists>rows. RANKINGS_QUERY s (quoted_csv gs) = Inr rows \<and>
           fv = features self \<and> gv = map fst rows \<and>
           shape a = (length (features self), length gs) \<and> wf_array a \<and>
           adtype a = dtype self \<and> length gv \<le> length gs \<and>
           (\<forall>i<length gv.
              length (snd (rows ! i)) = length (features self) * itemsize (dtype self) \<longrightarrow>
              (dtype self = Int16 \<longrightarrow> column a i =
                 map (\<lambda>f. Some (sint (word_of_int
                        (uint (snd (rows ! i) ! (2 * f)) +
                         256 * uint (snd (rows ! i) ! (2 * f + 1)))
                        :: 16 word)))
                   [0 ..< length (features self)]) \<and>
              (dtype self = Int32 \<longrightarrow> column a i =
                 map (\<lambda>f. Some (sint (word_of_int
                        (uint (snd (rows ! i) ! (4 * f)) +
                         256 * uint (snd (rows ! i) ! (4 * f + 1)) +
                         65536 * uint (snd (rows ! i) ! (4 * f + 2)) +
                         16777216 * uint (snd (rows ! i) ! (4 * f + 3)))
                        :: 32 word)))
                   [0 ..< length (features self)])) \<and>
           (\<forall>i. length gv \<le> i \<and> i < length gs \<longrightarrow>
              column a i = replicate (length (features self)) None))"
proof -
  define rows where "rows = sort_key fst (filter (\<lambda>row. fst row \<in> set gs) (rankings s))"
  define a0 where "a0 = np_empty (length (features self), length gs) (dtype self)"
  from load_Inr_request [OF assms] have gs: "gs \<noteq> []" and nul: "CHR 0x00 \<notin> set (concat gs)"
    by simp_all
  have q: "RANKINGS_QUERY s (quoted_csv gs) = Inr rows"
    by (simp add: rows_def RANKINGS_QUERY_quoted_csv [OF nul])
  have wf0: "wf_array a0"
    unfolding a0_def by (rule wf_np_empty)
  have sh0: "shape a0 = (length (features self), length gs)" and dt0: "adtype a0 = dtype self"
    by (simp_all add: a0_def np_empty_def)
  from assms(2) have loop: "load_full_loop (dtype self) a0 0 rows = Inr a"
    and fv: "fv = features self" and gv: "gv = map fst rows"
    by (auto simp: load_unfold [of env self s gs, OF assms(1) gs nul] a0_def rows_def
          split: sum.splits)
  from load_full_loop_Inr [OF loop wf0] have sh: "shape a = shape a0"
    and dt: "adtype a = adtype a0" and wf: "wf_array a"
    and cols: "\<And>i. i < length rows \<Longrightarrow>
          \<exists>v w. frombuffer (dtype self) (snd (rows ! i)) = Inr v \<and>
                 np_broadcast (fst (shape a0)) v = Some w \<and> column a i = map Some w"
    and frame: "\<And>j. length rows \<le> j \<Longrightarrow> column a j = column a0 j"
    by auto
  from load_full_loop_fits [OF loop wf0] have fits: "length rows \<le> length gs"
    by (simp add: sh0)
  have decoded: "(dtype self = Int16 \<longrightarrow> column a i =
                 map (\<lambda>f. Some (sint (word_of_int
                        (uint (snd (rows ! i) ! (2 * f)) +
                         256 * uint (snd (rows ! i) ! (2 * f + 1)))
                        :: 16 word)))
                   [0 ..< length (features self)]) \<and>
              (dtype self = Int32 \<longrightarrow> column a i =
                 map (\<lambda>f. Some (sint (word_of_int
                        (uint (snd (rows ! i) ! (4 * f)) +
                         256 * uint (snd (rows ! i) ! (4 * f + 1)) +
                         65536 * uint (snd (rows ! i) ! (4 * f + 2)) +
                         16777216 * uint (snd (rows ! i) ! (4 * f + 3)))
                        :: 32 word)))
                   [0 ..< length (features self)])"
    if i: "i < length rows"
      and len: "length (snd (rows ! i)) = length (features self) * itemsize (dtype self)" for i
  proof -
    from cols [OF i] obtain v w where v: "frombuffer (dtype self) (snd (rows ! i)) = Inr v"
      and w: "np_broadcast (fst (shape a0)) v = Some w" and c: "column a i = map Some w"
      by blast
    from frombuffer_exact [OF v len] w have "w = v" and lv: "length v = length (features self)"
      by (simp_all add: sh0)
    with c have c': "column a i = map Some v" by simp
    from decoded_column [OF v] show ?thesis
      unfolding c' lv by blast
  qed
  have unwritten: "column a i = replicate (length (features self)) None"
    if "length rows \<le> i" and "i < length gs" for i
    using frame [OF that(1)] that(2) by (simp add: a0_def column_np_empty)
  have "RANKINGS_QUERY s (quoted_csv gs) = Inr rows \<and>
           fv = features self \<and> gv = map fst rows \<and>
           shape a = (length (features self), length gs) \<and> wf_array a \<and>
           adtype a = dtype self \<and> length gv \<le> length gs"
    using q fv gv sh sh0 dt dt0 wf fits by simp
  moreover have "length gv = length rows" by (simp add: gv)
  ultimately show ?thesis
    using decoded unwritten itemsize_values by (intro conjI exI [of _ rows]) simp_all
qed

theorem load_matrix_columns_witness:
  "sqlite3_open example_env (uri example_db) = Some example_store \<and>
   fst (load example_env example_db [''g4'', ''g2'', ''gX'']) =
     Inr ([''f1'', ''f2'', ''f3''], [''g2'', ''g4''], example_part) \<and>
   shape example_part = (3, 3) \<and> wf_array example_part \<and>
   RANKINGS_QUERY example_store (quoted_csv [''g4'', ''g2'', ''gX'']) =
     Inr [(''g2'', [1, 0, 2, 0, 0, 0]), (''g4'', [3, 0, 0, 0, 2, 0])] \<and>
   length [3, 0, 0, 0, 2, 0 :: byte] = length (features example_db) * itemsize (dtype example_db) \<and>
   column example_part 1 = map Some [3, 0, 2] \<and>
   column example_part 2 = replicate 3 None"
proof -
  have h1: "sqlite3_open example_env (uri example_db) = Some example_store"
    by (rule example_opens)
  have h2: "fst (load example_env example_db [''g4'', ''g2'', ''gX'']) =
     Inr ([''f1'', ''f2'', ''f3''], [''g2'', ''g4''], example_part)"
    by (rule load_example)
  from load_matrix_columns [OF h1 h2]
  have "shape example_part = (length (features example_db), length [''g4'', ''g2'', ''gX''])
    \<and> wf_array example_part"
    by blast
  then have "shape example_part = (3, 3) \<and> wf_array example_part"
    by (simp add: example_db_def example_object_def)
  moreover have "RANKINGS_QUERY example_store (quoted_csv [''g4'', ''g2'', ''gX'']) =
     Inr [(''g2'', [1, 0, 2, 0, 0, 0]), (''g4'', [3, 0, 0, 0, 2, 0])]"
    by code_simp
  moreover have "length [3, 0, 0, 0, 2, 0 :: byte] =
      length (features example_db) * itemsize (dtype example_db)"
    by (simp add: example_db_def example_object_def itemsize_def)
  moreover have "column example_part 1 = map Some [3, 0, 2]"
    and "column example_part 2 = replicate 3 None"
    by (simp_all add: column_def example_part_def numeral_3_eq_3)
  ultimately show ?thesis using h1 h2 by simp
qed

text \<open>
  C5 as stated fails: in \<open>short_store\<close> the blob of the one returned row decodes to
  the one rank 5, and \<open>load\<close> returns a matrix whose column 0 is 5, 5, 5.
\<close>

theorem load_column_not_decoded:
  "sqlite3_open example_env (uri short_db) = Some short_store \<and>
   RANKINGS_QUERY short_store (quoted_csv [''g1'']) = Inr [(''g1'', [5, 0])] \<and>
   frombuffer (dtype short_db) [5, 0] = Inr [5] \<and>
   fst (load example_env short_db [''g1'']) =
     Inr ([''f1'', ''f2'', ''f3''], [''g1''],
          \<lparr>shape = (3, 1), adtype = Int16, cells = [[Some 5], [Some 5], [Some 5]]\<rparr>) \<and>
   column \<lparr>shape = (3, 1), adtype = Int16, cells = [[Some 5], [Some 5], [Some 5]]\<rparr> 0 \<noteq>
     map Some [5]"
proof -
  have "frombuffer (dtype short_db) [5, 0] = Inr [5]"
    by code_simp
  moreover have "fst (load example_env short_db [''g1'']) =
     Inr ([''f1'', ''f2'', ''f3''], [''g1''],
          \<lparr>shape = (3, 1), adtype = Int16, cells = [[Some 5], [Some 5], [Some 5]]\<rparr>)"
    by code_simp
  moreover have "RANKINGS_QUERY short_store (quoted_csv [''g1'']) = Inr [(''g1'', [5, 0])]"
    by code_simp
  ultimately show ?thesis using example_opens(3) by (simp add: column_def)
qed




text \<open>
  C7, as amended. For every list of requested gene identifiers none of which contains a
  NUL character, with or without single quotes in them, the text that \<open>quoted_csv\<close>
  builds is read back by the SQL engine as exactly the given identifiers: the query is
  well formed and returns exactly the rows of \<open>rankings\<close> whose identifier was
  requested, ordered by identifier. When a requested identifier contains a NUL
  character, the statement is refused.
\<close>

theorem quoting_round_trip:
  "(CHR 0x00 \<notin> set (concat gs) \<longrightarrow>
      sql_in_list (quoted_csv gs) = Some gs \<and>
      (\<exists>rows. RANKINGS_QUERY s (quoted_csv gs) = Inr rows \<and>
         rows = sort_key fst (filter (\<lambda>row. fst row \<in> set gs) (rankings s)) \<and>
         set rows = {row. row \<in> set (rankings s) \<and> fst row \<in> set gs})) \<and>
   (CHR 0x00 \<in> set (concat gs) \<longrightarrow> RANKINGS_QUERY s (quoted_csv gs) = Inl QueryRefused)"
proof -
  have "set (sort_key fst (filter (\<lambda>row. fst row \<in> set gs) (rankings s))) =
      {row. row \<in> set (rankings s) \<and> fst row \<in> set gs}"
    by auto
  then show ?thesis
    using sql_in_list_quoted_csv [of gs] RANKINGS_QUERY_quoted_csv [of gs s]
      RANKINGS_QUERY_nul [of gs s]
    by blast
qed

theorem quoting_round_trip_witness:
  "CHR 0x00 \<notin> set (concat [''O'Brien1'', ''g2'']) \<and>
   quoted_csv [''O'Brien1'', ''g2''] =
     [sq] @ ''O'' @ [sq, sq] @ ''Brien1'' @ [sq] @ '','' @ [sq] @ ''g2'' @ [sq] \<and>
   sql_in_list (quoted_csv [''O'Brien1'', ''g2'']) = Some [''O'Brien1'', ''g2''] \<and>
   RANKINGS_QUERY quoted_store (quoted_csv [''O'Brien1'']) = Inr [(''O'Brien1'', [0, 0])] \<and>
   CHR 0x00 \<in> set (concat [nul_id]) \<and>
   RANKINGS_QUERY quoted_store (quoted_csv [nul_id]) = Inl QueryRefused"
proof -
  have h1: "CHR 0x00 \<notin> set (concat [''O'Brien1'', ''g2''])"
    and h2: "CHR 0x00 \<notin> set (concat [''O'Brien1''])"
    and h3: "CHR 0x00 \<in> set (concat [nul_id])"
    by (simp_all add: nul_id_def)
  have "quoted_csv [''O'Brien1'', ''g2''] =
     [sq] @ ''O'' @ [sq, sq] @ ''Brien1'' @ [sq] @ '','' @ [sq] @ ''g2'' @ [sq]"
    by (simp add: quoted_csv_def quote_def sq_def)
  moreover from quoting_round_trip [of "[''O'Brien1'', ''g2'']"] h1
  have "sql_in_list (quoted_csv [''O'Brien1'', ''g2'']) = Some [''O'Brien1'', ''g2'']"
    by blast
  moreover from quoting_round_trip [of "[''O'Brien1'']" quoted_store] h2
  have "RANKINGS_QUERY quoted_store (quoted_csv [''O'Brien1'']) =
      Inr (sort_key fst (filter (\<lambda>row. fst row \<in> set [''O'Brien1'']) (rankings quoted_store)))"
    by blast
  then have "RANKINGS_QUERY quoted_store (quoted_csv [''O'Brien1'']) =
      Inr [(''O'Brien1'', [0, 0])]"
    by (simp add: quoted_store_def)
  moreover from quoting_round_trip [of "[nul_id]" quoted_store] h3
  have "RANKINGS_QUERY quoted_store (quoted_csv [nul_id]) = Inl QueryRefused"
    by blast
  ultimately show ?thesis using h1 h3 by simp
qed

text \<open>
  C7 as stated fails: \<open>nul_store\<close> has a row for the identifier \<open>nul_id\<close>, and the
  query for \<open>nul_id\<close> is refused, so that \<open>load\<close> raises an error instead of
  returning the matching row.
\<close>

theorem nul_identifier_refused:
  "(nul_id, [0, 0, 0, 0, 0, 0]) \<in> set (rankings nul_store) \<and>
   RANKINGS_QUERY nul_store (quoted_csv [nul_id]) = Inl QueryRefused \<and>
   sqlite3_open example_env (uri nul_db) = Some nul_store \<and>
   load example_env nul_db [nul_id] = (Inl QueryRefused, nul_db)"
proof -
  have nul: "CHR 0x00 \<in> set (concat [nul_id])"
    by (simp add: nul_id_def)
  have "(nul_id, [0, 0, 0, 0, 0, 0]) \<in> set (rankings nul_store)"
    by (simp add: nul_store_def)
  moreover from nul have "RANKINGS_QUERY nul_store (quoted_csv [nul_id]) = Inl QueryRefused"
    by (rule RANKINGS_QUERY_nul)
  moreover from example_opens(7) nul
  have "load example_env nul_db [nul_id] = (Inl QueryRefused, nul_db)"
    by (rule load_nul)
  ultimately show ?thesis using example_opens(7) by simp
qed

text \<open>
  C8. \<open>load\<close> with an empty gene set fails with the assertion error of its first
  statement, whatever the environment and the object are: the guard precedes the
  allocation of the matrix and the connection to the file, no result is produced, and
  the object is returned as it was.
\<close>

theorem load_empty_signature:
  "load env self [] = (Inl (AssertionError ''A gene signature must be supplied''), self)"
  by (simp add: load_def)

theorem load_empty_signature_witness:
  "load example_env example_db [] =
     (Inl (AssertionError ''A gene signature must be supplied''), example_db) \<and>
   load \<lparr>os_path_exists = (\<lambda>path. False), os_path_abspath = (\<lambda>path. path),
         sqlite3_open = (\<lambda>uri'. None)\<rparr> example_db [] =
     (Inl (AssertionError ''A gene signature must be supplied''), example_db)"
  using load_empty_signature [of example_env example_db]
    load_empty_signature [of "\<lparr>os_path_exists = (\<lambda>path. False),
      os_path_abspath = (\<lambda>path. path), sqlite3_open = (\<lambda>uri'. None)\<rparr>" example_db]
  by simp

text \<open>
  C9, as amended. Construction fails with the assertion error "Database ... doesn't
  exist." when no file exists at the path, whatever the other arguments are; with
  the assertion error "Name must be specified." or "Nomenclature must be specified."
  when a file exists at the path and the name, or else the nomenclature is empty; and
  with an \<open>sqlite3\<close> error when a file exists, both are non-empty and SQLite cannot
  read a ranking database through the URI that the class builds from the absolute
  path. It returns an object only when a file exists at the path, SQLite reads a
  ranking database through that URI, and the name and the nomenclature are non-empty.
\<close>

theorem init_outcome:
  "(\<not> os_path_exists env path \<longrightarrow>
      init env path nm nomen =
        Inl (AssertionError (''Database '' @ path @ '' doesn't exist.''))) \<and>
   (os_path_exists env path \<and> nm = [] \<longrightarrow>
      init env path nm nomen = Inl (AssertionError ''Name must be specified.'')) \<and>
   (os_path_exists env path \<and> nm \<noteq> [] \<and> nomen = [] \<longrightarrow>
      init env path nm nomen = Inl (AssertionError ''Nomenclature must be specified.'')) \<and>
   (os_path_exists env path \<and> nm \<noteq> [] \<and> nomen \<noteq> [] \<and>
    sqlite3_open env (''file:'' @ os_path_abspath env path @ ''?mode=ro'') = None \<longrightarrow>
      init env path nm nomen = Inl SqliteError) \<and>
   (\<forall>self. init env path nm nomen = Inr self \<longrightarrow>
      os_path_exists env path \<and>
      (\<exists>s. sqlite3_open env (''file:'' @ os_path_abspath env path @ ''?mode=ro'') = Some s) \<and>
      nm \<noteq> [] \<and> nomen \<noteq> [] \<and>
      uri self = ''file:'' @ os_path_abspath env path @ ''?mode=ro'')"
proof -
  have "os_path_exists env path \<and>
      (\<exists>s. sqlite3_open env (''file:'' @ os_path_abspath env path @ ''?mode=ro'') = Some s) \<and>
      nm \<noteq> [] \<and> nomen \<noteq> [] \<and>
      uri self = ''file:'' @ os_path_abspath env path @ ''?mode=ro''"
    if "init env path nm nomen = Inr self" for self
    using init_Inr [OF that] by auto
  then show ?thesis
    by (auto simp: init_def sqlite3_connect_def Let_def)
qed

theorem init_outcome_witness:
  "\<not> os_path_exists example_env ''nowhere.db'' \<and>
   init example_env ''nowhere.db'' ''db'' ''HGNC'' =
     Inl (AssertionError ''Database nowhere.db doesn't exist.'') \<and>
   os_path_exists example_env ''rankings.db'' \<and>
   init example_env ''rankings.db'' [] ''HGNC'' =
     Inl (AssertionError ''Name must be specified.'') \<and>
   init example_env ''rankings.db'' ''db'' [] =
     Inl (AssertionError ''Nomenclature must be specified.'') \<and>
   os_path_exists example_env ''notes.txt'' \<and>
   sqlite3_open example_env (''file:'' @ os_path_abspath example_env ''notes.txt'' @ ''?mode=ro'')
     = None \<and>
   init example_env ''notes.txt'' ''db'' ''HGNC'' = Inl SqliteError \<and>
   init example_env ''rankings.db'' ''db'' ''HGNC'' = Inr example_db \<and>
   sqlite3_open example_env
     (''file:'' @ os_path_abspath example_env ''rankings.db'' @ ''?mode=ro'') =
     Some example_store"
proof -
  have h1: "\<not> os_path_exists example_env ''nowhere.db''"
    and h2: "os_path_exists example_env ''rankings.db''"
    and h3: "os_path_exists example_env ''notes.txt''"
    and h4: "sqlite3_open example_env
      (''file:'' @ os_path_abspath example_env ''notes.txt'' @ ''?mode=ro'') = None"
    and h5: "sqlite3_open example_env
     (''file:'' @ os_path_abspath example_env ''rankings.db'' @ ''?mode=ro'') =
     Some example_store"
    by (simp_all add: example_env_def)
  from init_outcome [of example_env "''nowhere.db''" "''db''" "''HGNC''"] h1
  have "init example_env ''nowhere.db'' ''db'' ''HGNC'' =
     Inl (AssertionError ''Database nowhere.db doesn't exist.'')"
    by simp
  moreover from init_outcome [of example_env "''rankings.db''" "[]" "''HGNC''"] h2
  have "init example_env ''rankings.db'' [] ''HGNC'' =
      Inl (AssertionError ''Name must be specified.'')"
    by simp
  moreover from init_outcome [of example_env "''rankings.db''" "''db''" "[]"] h2
  have "init example_env ''rankings.db'' ''db'' [] =
     Inl (AssertionError ''Nomenclature must be specified.'')"
    by simp
  moreover from init_outcome [of example_env "''notes.txt''" "''db''" "''HGNC''"] h3 h4
  have "init example_env ''notes.txt'' ''db'' ''HGNC'' = Inl SqliteError"
    by simp
  ultimately show ?thesis using h1 h2 h3 h4 h5 init_example by simp
qed

text \<open>
  C9 as stated fails: \<open>notes.txt\<close> exists and is no readable store, and construction
  fails with an \<open>sqlite3\<close> error, not with the assertion error for a missing file.
  And with an empty name at a path where no file exists, construction fails with the
  assertion error for the missing file, not with the one for the name.
\<close>

theorem init_existing_unreadable:
  "os_path_exists example_env ''notes.txt'' \<and>
   sqlite3_open example_env (''file:'' @ os_path_abspath example_env ''notes.txt'' @ ''?mode=ro'')
     = None \<and>
   init example_env ''notes.txt'' ''db'' ''HGNC'' = Inl SqliteError \<and>
   init example_env ''notes.txt'' ''db'' ''HGNC'' \<noteq>
     Inl (AssertionError ''Database notes.txt doesn't exist.'') \<and>
   init example_env ''nowhere.db'' [] ''HGNC'' =
     Inl (AssertionError ''Database nowhere.db doesn't exist.'')"
  by (simp add: init_def sqlite3_connect_def example_env_def)

text \<open>
  C10, as amended. For every database with at least one gene, whose gene identifiers
  are distinct and contain no NUL character, \<open>load\<close> with a gene set that holds each
  gene of the database once (in any order) has the outcome of \<open>load_full\<close>: the same
  feature vector, the same gene vector in the same order and the same matrix when they
  return, and the same error when they fail.
\<close>

theorem load_all_genes_eq_load_full:
  assumes "init env path nm nomen = Inr self"
    and "fst (genes env self) = Inr gv" and "gv \<noteq> []"
    and "distinct gv" and "CHR 0x00 \<notin> set (concat gv)"
    and "distinct gs" and "set gs = set gv"
  shows "fst (load env self gs) = fst (load_full env self)"
proof -
  from init_opens [OF assms(1)] obtain s where s: "sqlite3_open env (uri self) = Some s"
    by blast
  note f = init_fields [OF assms(1) s]
  from assms(2) have gv: "gv = ALL_GENE_IDS_QUERY s"
    using s f(4) by (simp add: genes_fresh)
  from assms(3,7) have gs: "gs \<noteq> []" by auto
  from assms(5,7) have nul: "CHR 0x00 \<notin> set (concat gs)" by auto
  have "length gs = card (set gs)" using assms(6) by (simp add: distinct_card)
  also have "\<dots> = card (set gv)" using assms(7) by simp
  also have "\<dots> = length gv" using assms(4) by (simp add: distinct_card)
  finally have len: "length gs = length (rankings s)"
    by (simp add: gv length_ALL_GENE_IDS_QUERY)
  have "\<forall>row\<in>set (rankings s). fst row \<in> set gs"
    using assms(7) by (simp add: gv ALL_GENE_IDS_QUERY_def)
  then have all: "filter (\<lambda>row. fst row \<in> set gs) (rankings s) = rankings s"
    by simp
  show ?thesis
    using s f(4)
    by (simp add: load_unfold [of env self s gs, OF s gs nul] load_full_fresh all len Let_def
          ALL_RANKINGS_QUERY_def ALL_GENE_IDS_QUERY_def split: sum.splits)
qed

theorem load_all_genes_eq_load_full_witness:
  "init example_env ''rankings.db'' ''db'' ''HGNC'' = Inr example_db \<and>
   fst (genes example_env example_db) = Inr [''g1'', ''g2'', ''g3'', ''g4''] \<and>
   distinct [''g1'', ''g2'', ''g3'', ''g4''] \<and>
   CHR 0x00 \<notin> set (concat [''g1'', ''g2'', ''g3'', ''g4'']) \<and>
   distinct [''g4'', ''g3'', ''g1'', ''g2''] \<and>
   set [''g4'', ''g3'', ''g1'', ''g2''] = set [''g1'', ''g2'', ''g3'', ''g4''] \<and>
   fst (load example_env example_db [''g4'', ''g3'', ''g1'', ''g2'']) =
     fst (load_full example_env example_db) \<and>
   fst (load example_env example_db [''g4'', ''g3'', ''g1'', ''g2'']) =
     Inr ([''f1'', ''f2'', ''f3''], [''g1'', ''g2'', ''g3'', ''g4''], example_full)"
proof -
  have h1: "init example_env ''rankings.db'' ''db'' ''HGNC'' = Inr example_db"
    by (rule init_example)
  have h2: "fst (genes example_env example_db) = Inr [''g1'', ''g2'', ''g3'', ''g4'']"
    by code_simp
  have h3: "[''g1'', ''g2'', ''g3'', ''g4''] \<noteq> []"
    and h4: "distinct [''g1'', ''g2'', ''g3'', ''g4'']"
    and h5: "CHR 0x00 \<notin> set (concat [''g1'', ''g2'', ''g3'', ''g4''])"
    and h6: "distinct [''g4'', ''g3'', ''g1'', ''g2'']"
    by simp_all
  have h7: "set [''g4'', ''g3'', ''g1'', ''g2''] = set [''g1'', ''g2'', ''g3'', ''g4'']"
    by auto
  from load_all_genes_eq_load_full [OF h1 h2 h3 h4 h5 h6 h7]
  have "fst (load example_env example_db [''g4'', ''g3'', ''g1'', ''g2'']) =
     fst (load_full example_env example_db)" .
  with h1 h2 h4 h5 h6 h7 load_full_example show ?thesis by simp
qed

text \<open>
  C10 as stated fails for a database without genes: the gene list of \<open>empty_store\<close> is
  empty, \<open>load_full\<close> returns an array of no columns, and \<open>load\<close> with the empty gene
  set raises its assertion error. It fails for \<open>twin_store\<close>, where the one gene g1
  has two rows: \<open>load_full\<close> returns two columns, and \<open>load\<close> with the gene set of
  g1 has one column and raises IndexError at the second row. And it fails for
  \<open>nul_store\<close>, whose gene identifier contains a NUL character: \<open>load_full\<close> returns,
  and the query of \<open>load\<close> is refused.
\<close>

theorem load_empty_database_differs:
  "init example_env ''empty.db'' ''db'' ''HGNC'' = Inr empty_db \<and>
   fst (genes example_env empty_db) = Inr [] \<and>
   fst (load_full example_env empty_db) =
     Inr ([''f1'', ''f2'', ''f3''], [],
          \<lparr>shape = (3, 0), adtype = Int16, cells = [[], [], []]\<rparr>) \<and>
   fst (load example_env empty_db []) =
     Inl (AssertionError ''A gene signature must be supplied'') \<and>
   init example_env ''twin.db'' ''db'' ''HGNC'' = Inr twin_db \<and>
   fst (genes example_env twin_db) = Inr [''g1'', ''g1''] \<and>
   fst (load_full example_env twin_db) =
     Inr ([''f1'', ''f2'', ''f3''], [''g1'', ''g1''],
          \<lparr>shape = (3, 2), adtype = Int16,
           cells = [[Some 0, Some 1], [Some 1, Some 0], [Some 1, Some 0]]\<rparr>) \<and>
   fst (load example_env twin_db [''g1'']) = Inl IndexError \<and>
   init example_env ''nul.db'' ''db'' ''HGNC'' = Inr nul_db \<and>
   fst (genes example_env nul_db) = Inr [nul_id] \<and>
   fst (load_full example_env nul_db) =
     Inr ([''f1'', ''f2'', ''f3''], [nul_id],
          \<lparr>shape = (3, 1), adtype = Int16, cells = [[Some 0], [Some 0], [Some 0]]\<rparr>) \<and>
   fst (load example_env nul_db [nul_id]) = Inl QueryRefused"
proof -
  have "fst (genes example_env empty_db) = Inr []"
    by code_simp
  moreover have "fst (load_full example_env empty_db) =
     Inr ([''f1'', ''f2'', ''f3''], [],
          \<lparr>shape = (3, 0), adtype = Int16, cells = [[], [], []]\<rparr>)"
    by code_simp
  moreover have "fst (load example_env empty_db []) =
     Inl (AssertionError ''A gene signature must be supplied'')"
    by (simp add: load_def)
  moreover have "fst (genes example_env twin_db) = Inr [''g1'', ''g1'']"
    by code_simp
  moreover have "fst (load_full example_env twin_db) =
     Inr ([''f1'', ''f2'', ''f3''], [''g1'', ''g1''],
          \<lparr>shape = (3, 2), adtype = Int16,
           cells = [[Some 0, Some 1], [Some 1, Some 0], [Some 1, Some 0]]\<rparr>)"
    by code_simp
  moreover have "fst (load example_env twin_db [''g1'']) = Inl IndexError"
    by code_simp
  moreover have "fst (genes example_env nul_db) = Inr [nul_id]"
    by code_simp
  moreover have "fst (load_full example_env nul_db) =
     Inr ([''f1'', ''f2'', ''f3''], [nul_id],
          \<lparr>shape = (3, 1), adtype = Int16, cells = [[Some 0], [Some 0], [Some 0]]\<rparr>)"
    by code_simp
  moreover have "fst (load example_env nul_db [nul_id]) = Inl QueryRefused"
    by code_simp
  ultimately show ?thesis using init_empty init_twin init_nul by simp
qed

end
